theory Spec2Isabelle
  imports Main "HOL-Library.List_Lexorder" "HOL-Library.Char_ord"
begin

section \<open>Strings as Python uses them\<close>

text \<open>
  Strings are \<open>char list\<close>; a \<open>char\<close> is one Python character with a code point
  below 256, which is the text the model covers. \<open>strip\<close>, \<open>lower\<close>, \<open>split_on\<close>
  and \<open>replace_Z\<close> are \<^verbatim>\<open>str.strip()\<close>, \<^verbatim>\<open>str.lower()\<close>,
  \<^verbatim>\<open>str.split(',')\<close> and \<^verbatim>\<open>str.replace('Z', '+00:00')\<close> on such text:
  the whitespace characters below 256 are the twelve of \<open>is_space\<close>, and the
  characters that \<^verbatim>\<open>lower()\<close> changes are A to Z and the capital letters
  0xC0 to 0xDE except the multiplication sign 0xD7, each moved up by 32.
\<close>

definition is_space :: "char \<Rightarrow> bool" where
  "is_space c = (c \<in> set [CHR '' '', CHR 0x09, CHR 0x0A, CHR 0x0B, CHR 0x0C, CHR 0x0D,
                            CHR 0x1C, CHR 0x1D, CHR 0x1E, CHR 0x1F, CHR 0x85, CHR 0xA0])"

definition strip :: "string \<Rightarrow> string" where
  "strip s = rev (dropWhile is_space (rev (dropWhile is_space s)))"

definition latin_upper :: string where
  "latin_upper =
      [CHR 0xC0, CHR 0xC1, CHR 0xC2, CHR 0xC3, CHR 0xC4, CHR 0xC5, CHR 0xC6, CHR 0xC7,
       CHR 0xC8, CHR 0xC9, CHR 0xCA, CHR 0xCB, CHR 0xCC, CHR 0xCD, CHR 0xCE, CHR 0xCF,
       CHR 0xD0, CHR 0xD1, CHR 0xD2, CHR 0xD3, CHR 0xD4, CHR 0xD5, CHR 0xD6, CHR 0xD8,
       CHR 0xD9, CHR 0xDA, CHR 0xDB, CHR 0xDC, CHR 0xDD, CHR 0xDE]"

definition latin_lower :: string where
  "latin_lower =
      [CHR 0xE0, CHR 0xE1, CHR 0xE2, CHR 0xE3, CHR 0xE4, CHR 0xE5, CHR 0xE6, CHR 0xE7,
       CHR 0xE8, CHR 0xE9, CHR 0xEA, CHR 0xEB, CHR 0xEC, CHR 0xED, CHR 0xEE, CHR 0xEF,
       CHR 0xF0, CHR 0xF1, CHR 0xF2, CHR 0xF3, CHR 0xF4, CHR 0xF5, CHR 0xF6, CHR 0xF8,
       CHR 0xF9, CHR 0xFA, CHR 0xFB, CHR 0xFC, CHR 0xFD, CHR 0xFE]"

definition lower_char :: "char \<Rightarrow> char" where
  "lower_char c =
     (case map_of (zip (''ABCDEFGHIJKLMNOPQRSTUVWXYZ'' @ latin_upper)
                       (''abcdefghijklmnopqrstuvwxyz'' @ latin_lower)) c of
        None \<Rightarrow> c | Some d \<Rightarrow> d)"

definition lower :: "string \<Rightarrow> string" where
  "lower s = map lower_char s"

fun split_on :: "char \<Rightarrow> string \<Rightarrow> string list" where
  "split_on sep [] = [[]]"
| "split_on sep (c # cs) =
     (if c = sep then [] # split_on sep cs
      else (case split_on sep cs of
              [] \<Rightarrow> [[c]]
            | w # ws \<Rightarrow> (c # w) # ws))"

definition replace_Z :: "string \<Rightarrow> string" where
  "replace_Z s = concat (map (\<lambda>c. if c = CHR ''Z'' then ''+00:00'' else [c]) s)"

text \<open>
  SQL \<^verbatim>\<open>LIKE\<close>: in the pattern \<open>%\<close> stands for any run of characters and \<open>_\<close> for
  any one character. \<open>ilike\<close> compares without regard to case.
\<close>

function like :: "string \<Rightarrow> string \<Rightarrow> bool" where
  "like [] s = (s = [])"
| "like (p # ps) s =
     (if p = CHR ''%'' then
        (like ps s \<or> (case s of [] \<Rightarrow> False | _ # s' \<Rightarrow> like (p # ps) s'))
      else
        (case s of [] \<Rightarrow> False | c # s' \<Rightarrow> (p = CHR ''_'' \<or> p = c) \<and> like ps s'))"
  by pat_completeness auto
termination
  by (relation "measure (\<lambda>(p, s). length p + length s)") auto

definition ilike :: "string \<Rightarrow> string \<Rightarrow> bool" where
  "ilike s pat = like (lower pat) (lower s)"

section \<open>The task table and the session\<close>

text \<open>
  Modelled from the spec: the \<open>Task\<close> model (models.py) is missing; its attributes
  are those of the spec's data model, under the names the service uses. The primary key
  is \<open>task_id\<close> (\<^verbatim>\<open>Task.id\<close>); owner identifiers are compared for equality
  only; a \<^verbatim>\<open>datetime\<close> is a point on the integer time line.
\<close>

type_synonym uuid = nat
type_synonym datetime = int

record task =
  task_id :: int
  user_id :: uuid
  title :: string
  description :: "string option"
  priority :: string
  due_date :: "datetime option"
  tags :: "string list"
  completed :: bool
  created_at :: datetime
  updated_at :: datetime

text \<open>
  The \<^verbatim>\<open>Session\<close>: \<open>committed\<close> is the table as of the last commit, \<open>rows\<close> the
  table as the open transaction sees it (every \<^verbatim>\<open>db.exec\<close> flushes pending changes
  first, so queries read \<open>rows\<close>), \<open>next_id\<close> the sequence behind the primary key.
\<close>

record db =
  committed :: "task list"
  rows :: "task list"
  next_id :: int

definition commit :: "db \<Rightarrow> db" where
  "commit d = d\<lparr>committed := rows d\<rparr>"

definition rollback :: "db \<Rightarrow> db" where
  "rollback d = d\<lparr>rows := committed d\<rparr>"

text \<open>\<^verbatim>\<open>db.add(task)\<close> of a loaded row writes it back under its primary key.\<close>

definition save :: "task \<Rightarrow> db \<Rightarrow> db" where
  "save t d = d\<lparr>rows := map (\<lambda>r. if task_id r = task_id t then t else r) (rows d)\<rparr>"

definition delete :: "task \<Rightarrow> db \<Rightarrow> db" where
  "delete t d = d\<lparr>rows := filter (\<lambda>r. task_id r \<noteq> task_id t) (rows d)\<rparr>"

text \<open>
  Modelled from the spec: the column defaults of the \<open>Task\<close> model (models.py) are
  missing; the store sets both timestamps when a row is created and refreshes the
  updated timestamp on every mutation of a row.
\<close>

definition touch :: "datetime \<Rightarrow> task \<Rightarrow> task" where
  "touch now t = t\<lparr>updated_at := now\<rparr>"

datatype error = ValueError string | TaskNotFound int | StoreError | TypeError | AttributeError

section \<open>TaskService\<close>

definition get_task_by_id :: "db \<Rightarrow> uuid \<Rightarrow> int \<Rightarrow> task option" where
  "get_task_by_id d uid tid = find (\<lambda>t. task_id t = tid \<and> user_id t = uid) (rows d)"


subsection \<open>get_tasks\<close>

text \<open>The filters of \<^verbatim>\<open>get_tasks\<close>, one per \<^verbatim>\<open>where\<close> clause, in the source's order.\<close>

definition status_where :: "string option \<Rightarrow> task \<Rightarrow> bool" where
  "status_where status t =
     (case status of
        None \<Rightarrow> True
      | Some s \<Rightarrow>
          (if s \<noteq> [] \<and> lower s \<noteq> ''all'' then
             (if lower s = ''pending'' then completed t = False
              else if lower s = ''completed'' then completed t = True
              else True)
           else True))"

definition priority_where :: "string option \<Rightarrow> task \<Rightarrow> bool" where
  "priority_where prio t = (case prio of None \<Rightarrow> True | Some p \<Rightarrow> priority t = p)"

text \<open>
  \<open>fromisoformat\<close> is \<^verbatim>\<open>datetime.fromisoformat\<close> of the standard library, taken as
  a parameter: \<open>None\<close> is its \<^verbatim>\<open>ValueError\<close>, on which the filter is dropped.
\<close>

definition due_date_where :: "(string \<Rightarrow> datetime option) \<Rightarrow> string option \<Rightarrow> task \<Rightarrow> bool" where
  "due_date_where fromisoformat due t =
     (case due of
        None \<Rightarrow> True
      | Some s \<Rightarrow>
          (case fromisoformat (replace_Z s) of
             None \<Rightarrow> True
           | Some due_date_obj \<Rightarrow> due_date t = Some due_date_obj))"

text \<open>
  The loop over \<^verbatim>\<open>tag_list\<close>: every non-empty stripped tag adds one more
  \<^verbatim>\<open>where(Task.tags.any(tag))\<close>, which holds when the tag is an element of the row's
  tags array.
\<close>

fun tags_loop :: "string list \<Rightarrow> task \<Rightarrow> bool" where
  "tags_loop [] t = True"
| "tags_loop (tag # tag_list) t =
     ((if strip tag \<noteq> [] then strip tag \<in> set (tags t) else True) \<and> tags_loop tag_list t)"

definition tags_where :: "string option \<Rightarrow> task \<Rightarrow> bool" where
  "tags_where tgs t =
     (case tgs of None \<Rightarrow> True | Some s \<Rightarrow> tags_loop (split_on (CHR '','') s) t)"

definition search_where :: "string option \<Rightarrow> task \<Rightarrow> bool" where
  "search_where search t =
     (case search of
        None \<Rightarrow> True
      | Some s \<Rightarrow>
          (if strip s \<noteq> [] then
             (let search_term = ''%'' @ strip s @ ''%''
              in ilike (title t) search_term \<or>
                 (case description t of None \<Rightarrow> False | Some d \<Rightarrow> ilike d search_term))
           else True))"

definition statement ::
  "(string \<Rightarrow> datetime option) \<Rightarrow> db \<Rightarrow> uuid \<Rightarrow> string option \<Rightarrow> string option \<Rightarrow>
   string option \<Rightarrow> string option \<Rightarrow> string option \<Rightarrow> task list" where
  "statement fromisoformat d uid status prio due tgs search =
     filter (\<lambda>t. user_id t = uid \<and> status_where status t \<and> priority_where prio t \<and>
                 due_date_where fromisoformat due t \<and> tags_where tgs t \<and> search_where search t)
            (rows d)"

text \<open>
  \<^verbatim>\<open>ORDER BY\<close>: rows with equal keys keep the table's order. Any direction other than
  \<^verbatim>\<open>"asc"\<close> is descending. A \<^verbatim>\<open>NULL\<close> key sorts as larger than every value (the
  default of PostgreSQL, the store named in main.py) unless \<^verbatim>\<open>nulls_last()\<close> is asked for.
\<close>

definition order_by :: "('a \<Rightarrow> 'k::linorder) \<Rightarrow> string option \<Rightarrow> 'a list \<Rightarrow> 'a list" where
  "order_by key dir xs =
     (if dir = Some ''asc'' then sort_key key xs else rev (sort_key key (rev xs)))"

definition order_by_nullable ::
  "('a \<Rightarrow> 'k::linorder option) \<Rightarrow> string option \<Rightarrow> 'a list \<Rightarrow> 'a list" where
  "order_by_nullable key dir xs =
     (let vals = order_by (\<lambda>x. the (key x)) dir (filter (\<lambda>x. key x \<noteq> None) xs);
          nulls = filter (\<lambda>x. key x = None) xs
      in if dir = Some ''asc'' then vals @ nulls else nulls @ vals)"

definition order_by_nulls_last ::
  "('a \<Rightarrow> 'k::linorder option) \<Rightarrow> string option \<Rightarrow> 'a list \<Rightarrow> 'a list" where
  "order_by_nulls_last key dir xs =
     order_by (\<lambda>x. the (key x)) dir (filter (\<lambda>x. key x \<noteq> None) xs)
       @ filter (\<lambda>x. key x = None) xs"

definition priority_order :: "task \<Rightarrow> nat option" where
  "priority_order t =
     (if priority t = ''high'' then Some 1
      else if priority t = ''medium'' then Some 2
      else if priority t = ''low'' then Some 3
      else None)"

definition apply_sorting :: "string option \<Rightarrow> string option \<Rightarrow> task list \<Rightarrow> task list" where
  "apply_sorting sort_field sort_direction ts =
     (if sort_field = Some ''title'' then order_by title sort_direction ts
      else if sort_field = Some ''updated'' then order_by updated_at sort_direction ts
      else if sort_field = Some ''priority'' then order_by_nullable priority_order sort_direction ts
      else if sort_field = Some ''due_date'' then order_by_nulls_last due_date sort_direction ts
      else order_by created_at sort_direction ts)"

text \<open>
  The count is taken from the filtered statement before it is ordered and sliced. A
  negative \<^verbatim>\<open>OFFSET\<close> or \<^verbatim>\<open>LIMIT\<close> is refused by the store when the page is read.
\<close>

definition get_tasks ::
  "(string \<Rightarrow> datetime option) \<Rightarrow> db \<Rightarrow> uuid \<Rightarrow> string option \<Rightarrow> string option \<Rightarrow>
   string option \<Rightarrow> string option \<Rightarrow> string option \<Rightarrow> string option \<Rightarrow> string option \<Rightarrow>
   int \<Rightarrow> int \<Rightarrow> error + (task list \<times> int)" where
  "get_tasks fromisoformat d uid status prio due tgs search sort_field sort_direction page limit =
     (let stmt = statement fromisoformat d uid status prio due tgs search;
          total_count = int (length stmt);
          sorted_stmt = apply_sorting sort_field sort_direction stmt;
          offset = (page - 1) * limit
      in if offset < 0 \<or> limit < 0 then Inl StoreError
         else Inr (take (nat limit) (drop (nat offset) sorted_stmt), total_count))"

subsection \<open>Single-task operations\<close>

text \<open>
  Every operation returns the session it leaves behind together with its result; a
  raised exception is \<open>Inl\<close>. \<open>now\<close> is \<^verbatim>\<open>datetime.utcnow()\<close> at the call.
\<close>

definition valid_priority :: "string \<Rightarrow> bool" where
  "valid_priority p = (p \<in> set [''low'', ''medium'', ''high''])"

definition create_task ::
  "datetime \<Rightarrow> db \<Rightarrow> uuid \<Rightarrow> string \<Rightarrow> string option \<Rightarrow> string \<Rightarrow> datetime option \<Rightarrow>
   string list option \<Rightarrow> db \<times> (error + task)" where
  "create_task now d uid ttl descr prio due tgs =
     (if ttl = [] \<or> length (strip ttl) = 0 then
        (d, Inl (ValueError ''Title is required''))
      else if length (strip ttl) > 200 then
        (d, Inl (ValueError ''Title must be 200 characters or less''))
      else if (case descr of None \<Rightarrow> False | Some s \<Rightarrow> s \<noteq> [] \<and> length s > 1000) then
        (d, Inl (ValueError ''Description must be 1000 characters or less''))
      else if \<not> valid_priority prio then
        (d, Inl (ValueError ''Priority must be one of: low, medium, high''))
      else if (case due of None \<Rightarrow> False | Some dd \<Rightarrow> dd < now) then
        (d, Inl (ValueError ''Due date cannot be in the past''))
      else
        (let t = \<lparr>task_id = next_id d, user_id = uid, title = strip ttl,
                  description = descr, priority = prio, due_date = due,
                  tags = (case tgs of None \<Rightarrow> [] | Some ts \<Rightarrow> ts),
                  completed = False, created_at = now, updated_at = now\<rparr>
         in (commit (d\<lparr>rows := rows d @ [t], next_id := next_id d + 1\<rparr>), Inr t)))"

text \<open>
  \<^verbatim>\<open>update_task\<close> checks and assigns field by field. When a later field is refused
  the earlier assignments stay on the loaded row, pending in the session and not
  committed.
\<close>

definition update_task ::
  "datetime \<Rightarrow> db \<Rightarrow> uuid \<Rightarrow> int \<Rightarrow> string option \<Rightarrow> string option \<Rightarrow> string option \<Rightarrow>
   datetime option \<Rightarrow> string list option \<Rightarrow> bool option \<Rightarrow> db \<times> (error + task option)" where
  "update_task now d uid tid ttl descr prio due tgs compl =
     (case get_task_by_id d uid tid of
        None \<Rightarrow> (d, Inr None)
      | Some t0 \<Rightarrow>
          if (case ttl of None \<Rightarrow> False | Some s \<Rightarrow> s = [] \<or> length (strip s) = 0) then
            (d, Inl (ValueError ''Title is required''))
          else if (case ttl of None \<Rightarrow> False | Some s \<Rightarrow> length (strip s) > 200) then
            (d, Inl (ValueError ''Title must be 200 characters or less''))
          else
            let t1 = (case ttl of None \<Rightarrow> t0 | Some s \<Rightarrow> t0\<lparr>title := strip s\<rparr>) in
            if (case descr of None \<Rightarrow> False | Some s \<Rightarrow> length s > 1000) then
              (save t1 d, Inl (ValueError ''Description must be 1000 characters or less''))
            else
              let t2 = (case descr of None \<Rightarrow> t1 | Some s \<Rightarrow> t1\<lparr>description := Some s\<rparr>) in
              if (case prio of None \<Rightarrow> False | Some p \<Rightarrow> \<not> valid_priority p) then
                (save t2 d, Inl (ValueError ''Priority must be one of: low, medium, high''))
              else
                let t3 = (case prio of None \<Rightarrow> t2 | Some p \<Rightarrow> t2\<lparr>priority := p\<rparr>) in
                if (case due of None \<Rightarrow> False | Some dd \<Rightarrow> dd < now) then
                  (save t3 d, Inl (ValueError ''Due date cannot be in the past''))
                else
                  let t4 = (case due of None \<Rightarrow> t3 | Some dd \<Rightarrow> t3\<lparr>due_date := Some dd\<rparr>);
                      t5 = (case tgs of None \<Rightarrow> t4 | Some ts \<Rightarrow> t4\<lparr>tags := ts\<rparr>);
                      t6 = (case compl of None \<Rightarrow> t5 | Some c \<Rightarrow> t5\<lparr>completed := c\<rparr>);
                      t7 = touch now t6
                  in (commit (save t7 d), Inr (Some t7)))"

definition delete_task :: "db \<Rightarrow> uuid \<Rightarrow> int \<Rightarrow> db \<times> bool" where
  "delete_task d uid tid =
     (case get_task_by_id d uid tid of
        None \<Rightarrow> (d, False)
      | Some t \<Rightarrow> (commit (delete t d), True))"

definition toggle_complete :: "datetime \<Rightarrow> db \<Rightarrow> uuid \<Rightarrow> int \<Rightarrow> bool \<Rightarrow> db \<times> task option" where
  "toggle_complete now d uid tid c =
     (case get_task_by_id d uid tid of
        None \<Rightarrow> (d, None)
      | Some t \<Rightarrow>
          (let t' = touch now (t\<lparr>completed := c\<rparr>)
           in (commit (save t' d), Some t')))"

definition get_tasks_count :: "db \<Rightarrow> uuid \<Rightarrow> int" where
  "get_tasks_count d uid = int (length (filter (\<lambda>t. user_id t = uid) (rows d)))"

subsection \<open>Statistics\<close>

record statistics =
  st_total :: int
  st_completed :: int
  st_pending :: int
  st_overdue :: int

definition get_statistics :: "datetime \<Rightarrow> db \<Rightarrow> uuid \<Rightarrow> statistics" where
  "get_statistics now d uid =
     (let all_tasks = filter (\<lambda>t. user_id t = uid) (rows d);
          total = int (length all_tasks);
          n_completed = int (length (filter completed all_tasks));
          pending = total - n_completed;
          overdue = int (length (filter
            (\<lambda>t. (case due_date t of None \<Rightarrow> False | Some dd \<Rightarrow> dd < now) \<and> \<not> completed t)
            all_tasks))
      in \<lparr>st_total = total, st_completed = n_completed, st_pending = pending,
          st_overdue = overdue\<rparr>)"

subsection \<open>Bulk operations\<close>

text \<open>
  The four bulk operations run the same loop: look the id up under the owner, raise
  when it is missing, otherwise apply the operation's step to the loaded row and count
  it. \<open>bulk_loop\<close> is that loop with the step as its argument; the
  \<^verbatim>\<open>try\<close>/\<^verbatim>\<open>except\<close> around it commits when the loop ends and rolls back when it
  raises.
\<close>

fun bulk_loop ::
  "(task \<Rightarrow> db \<Rightarrow> db) \<Rightarrow> db \<Rightarrow> uuid \<Rightarrow> int list \<Rightarrow> int \<Rightarrow> db \<times> (error + int)" where
  "bulk_loop step d uid [] n = (d, Inr n)"
| "bulk_loop step d uid (tid # task_ids) n =
     (case get_task_by_id d uid tid of
        None \<Rightarrow> (d, Inl (TaskNotFound tid))
      | Some t \<Rightarrow> bulk_loop step (step t d) uid task_ids (n + 1))"

definition bulk_transaction ::
  "(task \<Rightarrow> db \<Rightarrow> db) \<Rightarrow> db \<Rightarrow> uuid \<Rightarrow> int list \<Rightarrow> db \<times> (error + int)" where
  "bulk_transaction step d uid task_ids =
     (case bulk_loop step d uid task_ids 0 of
        (d', Inl e) \<Rightarrow> (rollback d', Inl e)
      | (d', Inr n) \<Rightarrow> (commit d', Inr n))"

definition bulk_delete :: "db \<Rightarrow> uuid \<Rightarrow> int list \<Rightarrow> db \<times> (error + int)" where
  "bulk_delete d uid task_ids = bulk_transaction delete d uid task_ids"

definition bulk_complete :: "datetime \<Rightarrow> db \<Rightarrow> uuid \<Rightarrow> int list \<Rightarrow> db \<times> (error + int)" where
  "bulk_complete now d uid task_ids =
     bulk_transaction (\<lambda>t. save (touch now (t\<lparr>completed := True\<rparr>))) d uid task_ids"

definition bulk_pending :: "datetime \<Rightarrow> db \<Rightarrow> uuid \<Rightarrow> int list \<Rightarrow> db \<times> (error + int)" where
  "bulk_pending now d uid task_ids =
     bulk_transaction (\<lambda>t. save (touch now (t\<lparr>completed := False\<rparr>))) d uid task_ids"

definition bulk_priority_change ::
  "datetime \<Rightarrow> db \<Rightarrow> uuid \<Rightarrow> int list \<Rightarrow> string \<Rightarrow> db \<times> (error + int)" where
  "bulk_priority_change now d uid task_ids prio =
     (if \<not> valid_priority prio then
        (d, Inl (ValueError ''Priority must be one of: low, medium, high''))
      else bulk_transaction (\<lambda>t. save (touch now (t\<lparr>priority := prio\<rparr>))) d uid task_ids)"

section \<open>Request schemas\<close>

text \<open>
  \<^verbatim>\<open>CreateTaskRequest.validate_tags\<close> and \<^verbatim>\<open>UpdateTaskRequest.validate_tags\<close>
  (schemas/requests.py), the field validators the boundary runs before the service is
  called.
\<close>

fun tags_length_loop :: "string list \<Rightarrow> error option" where
  "tags_length_loop [] = None"
| "tags_length_loop (tag # v) =
     (if length tag > 50 then Some (ValueError ''Each tag must be 50 characters or less'')
      else tags_length_loop v)"

definition create_validate_tags :: "string list option \<Rightarrow> error + string list option" where
  "create_validate_tags v =
     (case v of
        None \<Rightarrow> Inl TypeError
      | Some ts \<Rightarrow>
          if length ts > 10 then Inl (ValueError ''Maximum 10 tags allowed'')
          else (case tags_length_loop ts of Some e \<Rightarrow> Inl e | None \<Rightarrow> Inr v))"

definition update_validate_tags :: "string list option \<Rightarrow> error + string list option" where
  "update_validate_tags v =
     (case v of
        None \<Rightarrow> Inr v
      | Some ts \<Rightarrow>
          if length ts > 10 then Inl (ValueError ''Maximum 10 tags allowed'')
          else (case tags_length_loop ts of Some e \<Rightarrow> Inl e | None \<Rightarrow> Inr v))"

subsection \<open>The request models and the routes that call the service\<close>

text \<open>
  \<^verbatim>\<open>CreateTaskRequest\<close> and \<^verbatim>\<open>UpdateTaskRequest\<close> as the framework validates a
  request body, and the \<^verbatim>\<open>create_task\<close> and \<^verbatim>\<open>update_task\<close> handlers of
  routes/tasks.py. A body that fails validation is answered before the handler runs
  (\<open>RequestValidationError\<close>); an exception of a validator that is not a
  \<^verbatim>\<open>ValueError\<close> is not caught (\<open>Unhandled\<close>). A default value is not validated.
  \<open>current_user\<close> is the id the token dependency returned.
\<close>

datatype http_error = HTTPException nat string | RequestValidationError | Unhandled error

record create_body =
  c_title :: string
  c_description :: "string option"
  c_priority :: "string option"
  c_due_date :: "datetime option"
  c_tags :: "string list option option"

text \<open>
  In \<open>create_body\<close> an absent priority is \<open>None\<close> (default "medium"); absent tags
  are \<open>None\<close> (default the empty list) and a JSON null is \<open>Some None\<close>.
\<close>

record create_request =
  r_title :: string
  r_description :: "string option"
  r_priority :: string
  r_due_date :: "datetime option"
  r_tags :: "string list option"

definition validate_create_request :: "datetime \<Rightarrow> create_body \<Rightarrow> http_error + create_request" where
  "validate_create_request now body =
     (case (case c_tags body of None \<Rightarrow> Inr (Some []) | Some v \<Rightarrow> create_validate_tags v) of
        Inl TypeError \<Rightarrow> Inl (Unhandled TypeError)
      | Inl _ \<Rightarrow> Inl RequestValidationError
      | Inr tgs \<Rightarrow>
          if length (c_title body) < 1 \<or> 200 < length (c_title body) \<or>
             (case c_description body of None \<Rightarrow> False | Some s \<Rightarrow> 1000 < length s) \<or>
             (case c_priority body of None \<Rightarrow> False | Some p \<Rightarrow> \<not> valid_priority p) \<or>
             (case c_due_date body of None \<Rightarrow> False | Some v \<Rightarrow> v < now)
          then Inl RequestValidationError
          else Inr \<lparr>r_title = c_title body, r_description = c_description body,
                    r_priority = (case c_priority body of None \<Rightarrow> ''medium'' | Some p \<Rightarrow> p),
                    r_due_date = c_due_date body, r_tags = tgs\<rparr>)"

definition create_task_route ::
  "datetime \<Rightarrow> db \<Rightarrow> uuid \<Rightarrow> uuid \<Rightarrow> create_body \<Rightarrow> db \<times> (http_error + task)" where
  "create_task_route now d current_user uid body =
     (case validate_create_request now body of
        Inl e \<Rightarrow> (d, Inl e)
      | Inr request \<Rightarrow>
          if current_user \<noteq> uid then
            (d, Inl (HTTPException 403 ''User ID in token does not match URL path''))
          else
            (case create_task now d uid (r_title request) (r_description request)
                    (r_priority request) (r_due_date request) (r_tags request) of
               (d', Inr t) \<Rightarrow> (d', Inr t)
             | (d', Inl (ValueError msg)) \<Rightarrow> (d', Inl (HTTPException 400 msg))
             | (d', Inl _) \<Rightarrow> (d', Inl (HTTPException 500 ''Internal server error''))))"

record update_body =
  u_title :: "string option"
  u_description :: "string option"
  u_priority :: "string option"
  u_due_date :: "datetime option"
  u_tags :: "string list option"

definition validate_update_request :: "datetime \<Rightarrow> update_body \<Rightarrow> http_error + update_body" where
  "validate_update_request now body =
     (case update_validate_tags (u_tags body) of
        Inl _ \<Rightarrow> Inl RequestValidationError
      | Inr tgs \<Rightarrow>
          if (case u_title body of None \<Rightarrow> False | Some s \<Rightarrow> length s < 1 \<or> 200 < length s) \<or>
             (case u_description body of None \<Rightarrow> False | Some s \<Rightarrow> 1000 < length s) \<or>
             (case u_priority body of None \<Rightarrow> False | Some p \<Rightarrow> \<not> valid_priority p) \<or>
             (case u_due_date body of None \<Rightarrow> False | Some v \<Rightarrow> v < now)
          then Inl RequestValidationError
          else Inr (body\<lparr>u_tags := tgs\<rparr>))"

text \<open>
  The handler raises its 404 for a missing task inside its own \<^verbatim>\<open>try\<close> block, where
  \<^verbatim>\<open>except Exception\<close> catches it and answers 500.
\<close>

definition update_task_route ::
  "datetime \<Rightarrow> db \<Rightarrow> uuid \<Rightarrow> uuid \<Rightarrow> int \<Rightarrow> update_body \<Rightarrow> db \<times> (http_error + task)" where
  "update_task_route now d current_user uid tid body =
     (case validate_update_request now body of
        Inl e \<Rightarrow> (d, Inl e)
      | Inr request \<Rightarrow>
          if current_user \<noteq> uid then
            (d, Inl (HTTPException 403 ''User ID in token does not match URL path''))
          else
            (case update_task now d uid tid (u_title request) (u_description request)
                    (u_priority request) (u_due_date request) (u_tags request) None of
               (d', Inr (Some t)) \<Rightarrow> (d', Inr t)
             | (d', Inr None) \<Rightarrow> (d', Inl (HTTPException 500 ''Internal server error''))
             | (d', Inl (ValueError msg)) \<Rightarrow> (d', Inl (HTTPException 400 msg))
             | (d', Inl _) \<Rightarrow> (d', Inl (HTTPException 500 ''Internal server error''))))"

section \<open>ImportService\<close>

text \<open>
  An imported record is a Python dict from field names to values: strings for a CSV
  row, any JSON value for a JSON item. Numbers are integers here.
\<close>

datatype pyval =
  PNone | PBool bool | PInt int | PStr string | PList "pyval list" | PDict "(string \<times> pyval) list"

type_synonym pydict = "(string \<times> pyval) list"

definition dict_get :: "pydict \<Rightarrow> string \<Rightarrow> pyval \<Rightarrow> pyval" where
  "dict_get m k dflt = (case map_of m k of None \<Rightarrow> dflt | Some v \<Rightarrow> v)"

fun truthy :: "pyval \<Rightarrow> bool" where
  "truthy PNone = False"
| "truthy (PBool b) = b"
| "truthy (PInt n) = (n \<noteq> 0)"
| "truthy (PStr s) = (s \<noteq> [])"
| "truthy (PList l) = (l \<noteq> [])"
| "truthy (PDict m) = (m \<noteq> [])"

fun py_len :: "pyval \<Rightarrow> error + nat" where
  "py_len (PStr s) = Inr (length s)"
| "py_len (PList l) = Inr (length l)"
| "py_len (PDict m) = Inr (length m)"
| "py_len _ = Inl TypeError"

fun py_strip :: "pyval \<Rightarrow> error + string" where
  "py_strip (PStr s) = Inr (strip s)"
| "py_strip _ = Inl AttributeError"

fun py_lower :: "pyval \<Rightarrow> error + string" where
  "py_lower (PStr s) = Inr (lower s)"
| "py_lower _ = Inl AttributeError"

datatype import_error =
  Title_required | Title_too_long | Description_too_long | Invalid_priority string
| Invalid_due_date pyval | Tags_not_array | Too_many_tags | Tag_too_long pyval
| Invalid_completed pyval

text \<open>\<open>Valid\<close> is the source's \<^verbatim>\<open>(True, "")\<close>, \<open>Invalid e\<close> its \<^verbatim>\<open>(False, message)\<close>.\<close>

datatype validation = Valid | Invalid import_error

definition parse_datetime :: "(string \<Rightarrow> datetime option) \<Rightarrow> pyval \<Rightarrow> datetime option" where
  "parse_datetime fromisoformat datetime_str =
     (if \<not> truthy datetime_str then None
      else (case datetime_str of PStr s \<Rightarrow> fromisoformat (replace_Z s) | _ \<Rightarrow> None))"

definition split_tags :: "string \<Rightarrow> string list" where
  "split_tags s = filter (\<lambda>tag. tag \<noteq> []) (map strip (split_on (CHR '','') s))"

fun import_tags_loop :: "pyval list \<Rightarrow> error + validation" where
  "import_tags_loop [] = Inr Valid"
| "import_tags_loop (tag # tgs) =
     (case py_len tag of
        Inl e \<Rightarrow> Inl e
      | Inr n \<Rightarrow> if n > 50 then Inr (Invalid (Tag_too_long tag)) else import_tags_loop tgs)"

definition validate_completed :: "pyval \<Rightarrow> validation" where
  "validate_completed c =
     (if (case c of PBool _ \<Rightarrow> False | _ \<Rightarrow> True) \<and>
         c \<notin> set [PStr ''true'', PStr ''false'', PStr ''True'', PStr ''False'', PStr ''1'', PStr ''0'']
      then Invalid (Invalid_completed c)
      else Valid)"

definition validate_tags_field :: "pyval \<Rightarrow> error + validation" where
  "validate_tags_field tgs =
     (if truthy tgs then
        (let tgs' = (case tgs of PStr s \<Rightarrow> PList (map PStr (split_tags s)) | _ \<Rightarrow> tgs)
         in case tgs' of
              PList l \<Rightarrow>
                if length l > 10 then Inr (Invalid Too_many_tags) else import_tags_loop l
            | _ \<Rightarrow> Inr (Invalid Tags_not_array))
      else Inr Valid)"

definition validate_imported_task ::
  "(string \<Rightarrow> datetime option) \<Rightarrow> pydict \<Rightarrow> error + validation" where
  "validate_imported_task fromisoformat task_data =
     (case py_strip (dict_get task_data ''title'' (PStr [])) of
        Inl e \<Rightarrow> Inl e
      | Inr ttl \<Rightarrow>
         (if ttl = [] then Inr (Invalid Title_required)
          else if length ttl > 200 then Inr (Invalid Title_too_long)
          else
           (let descr = dict_get task_data ''description'' (PStr []) in
            (case (if truthy descr then py_len descr else Inr 0) of
               Inl e \<Rightarrow> Inl e
             | Inr n \<Rightarrow>
                (if n > 1000 then Inr (Invalid Description_too_long)
                 else
                  (case py_lower (dict_get task_data ''priority'' (PStr ''medium'')) of
                     Inl e \<Rightarrow> Inl e
                   | Inr prio \<Rightarrow>
                      (if \<not> valid_priority prio then Inr (Invalid (Invalid_priority prio))
                       else
                        (let due_date_str = dict_get task_data ''due_date'' PNone in
                         (if truthy due_date_str \<and>
                             parse_datetime fromisoformat due_date_str = None
                          then Inr (Invalid (Invalid_due_date due_date_str))
                          else
                           (case validate_tags_field (dict_get task_data ''tags'' PNone) of
                              Inl e \<Rightarrow> Inl e
                            | Inr (Invalid e) \<Rightarrow> Inr (Invalid e)
                            | Inr Valid \<Rightarrow>
                                Inr (validate_completed
                                       (dict_get task_data ''completed'' (PBool False)))))))))))))"

definition parse_boolean :: "pyval \<Rightarrow> bool" where
  "parse_boolean bool_str =
     (case bool_str of
        PBool b \<Rightarrow> b
      | PStr s \<Rightarrow> lower s \<in> set [''true'', ''1'', ''yes'']
      | _ \<Rightarrow> False)"

text \<open>
  What \<^verbatim>\<open>parse_csv\<close> and \<^verbatim>\<open>parse_json\<close> do with the completed field of one
  record: the record is validated first, and only a valid one is converted (CSV through
  \<open>parse_boolean\<close>, JSON taken as it is). \<open>Inr None\<close> is a record turned away with a
  message.
\<close>

definition csv_row_completed ::
  "(string \<Rightarrow> datetime option) \<Rightarrow> pydict \<Rightarrow> error + pyval option" where
  "csv_row_completed fromisoformat row =
     (case validate_imported_task fromisoformat row of
        Inl e \<Rightarrow> Inl e
      | Inr (Invalid _) \<Rightarrow> Inr None
      | Inr Valid \<Rightarrow>
          Inr (Some (PBool (parse_boolean (dict_get row ''completed'' (PStr ''false''))))))"

definition json_item_completed ::
  "(string \<Rightarrow> datetime option) \<Rightarrow> pydict \<Rightarrow> error + pyval option" where
  "json_item_completed fromisoformat item =
     (case validate_imported_task fromisoformat item of
        Inl e \<Rightarrow> Inl e
      | Inr (Invalid _) \<Rightarrow> Inr None
      | Inr Valid \<Rightarrow> Inr (Some (dict_get item ''completed'' (PBool False))))"

section \<open>Store invariant and a sample store\<close>

text \<open>The primary key: no two rows of the table carry the same \<open>task_id\<close>.\<close>

definition pk_unique :: "db \<Rightarrow> bool" where
  "pk_unique d = (distinct (map task_id (rows d)) \<and> distinct (map task_id (committed d)))"

text \<open>Every id in the table was drawn from the sequence.\<close>

definition ids_below :: "db \<Rightarrow> bool" where
  "ids_below d = list_all (\<lambda>r. task_id r < next_id d) (rows d)"

text \<open>A session with nothing pending, as every commit and rollback leaves it.\<close>

definition clean :: "db \<Rightarrow> bool" where
  "clean d = (rows d = committed d)"

text \<open>
  The sample store of the scenarios: owner 1 holds four tasks with priorities high,
  medium, low, high, one of them completed and one overdue at time 100; owner 2 holds
  one task.
\<close>

definition mk_task ::
  "int \<Rightarrow> uuid \<Rightarrow> string \<Rightarrow> string \<Rightarrow> string list \<Rightarrow> bool \<Rightarrow> datetime option \<Rightarrow> task" where
  "mk_task i u ttl prio tgs c due =
     \<lparr>task_id = i, user_id = u, title = ttl, description = None, priority = prio,
      due_date = due, tags = tgs, completed = c, created_at = i, updated_at = i\<rparr>"

definition sample_rows :: "task list" where
  "sample_rows =
     [mk_task 1 1 ''Write report'' ''high'' [''work'', ''urgent''] False None,
      mk_task 2 1 ''Buy milk'' ''medium'' [''personal''] True None,
      mk_task 3 1 ''Call bank'' ''low'' [] False (Some 50),
      mk_task 4 1 ''Fix bug'' ''high'' [''work''] False None,
      mk_task 5 2 ''Plan trip'' ''low'' [''work''] False None]"

definition sample_db :: db where
  "sample_db = \<lparr>committed = sample_rows, rows = sample_rows, next_id = 6\<rparr>"

definition no_date :: "string \<Rightarrow> datetime option" where
  "no_date s = None"

text \<open>Whether a raised error is the bulk operations' "task not found".\<close>

definition is_not_found :: "error + 'a \<Rightarrow> bool" where
  "is_not_found r = (case r of Inl (TaskNotFound _) \<Rightarrow> True | _ \<Rightarrow> False)"

section \<open>Properties of the statistics\<close>

lemma length_filter_disjoint:
  "(\<And>x. x \<in> set xs \<Longrightarrow> P x \<Longrightarrow> \<not> Q x) \<Longrightarrow>
   length (filter P xs) + length (filter Q xs) \<le> length xs"
  by (induction xs) auto

text \<open>
  C7. For every owner and every table, the statistics satisfy completed + pending =
  total and overdue \<le> pending; overdue counts exactly the owner's rows that are not
  completed and have a due date before the evaluation time; for an owner without
  tasks all four values are 0.
\<close>

theorem statistics_identity:
  "(let s = get_statistics now d uid in
      st_completed s + st_pending s = st_total s \<and>
      st_overdue s \<le> st_pending s \<and>
      st_overdue s = int (length (filter
         (\<lambda>t. user_id t = uid \<and> \<not> completed t \<and> (\<exists>dd. due_date t = Some dd \<and> dd < now))
         (rows d))) \<and>
      ((\<forall>t \<in> set (rows d). user_id t \<noteq> uid) \<longrightarrow>
         s = \<lparr>st_total = 0, st_completed = 0, st_pending = 0, st_overdue = 0\<rparr>))"
proof -
  define s where "s = get_statistics now d uid"
  let ?own = "filter (\<lambda>t. user_id t = uid) (rows d)"
  let ?late = "\<lambda>t. (case due_date t of None \<Rightarrow> False | Some dd \<Rightarrow> dd < now) \<and> \<not> completed t"
  have sum: "st_completed s + st_pending s = st_total s"
    by (simp add: s_def get_statistics_def Let_def)
  have "length (filter ?late ?own) + length (filter completed ?own) \<le> length ?own"
    by (rule length_filter_disjoint) simp
  then have le: "st_overdue s \<le> st_pending s"
    by (simp add: s_def get_statistics_def Let_def)
  have late: "filter ?late ?own = filter
      (\<lambda>t. user_id t = uid \<and> \<not> completed t \<and> (\<exists>dd. due_date t = Some dd \<and> dd < now))
      (rows d)"
    unfolding filter_filter by (rule filter_cong) (auto split: option.splits)
  have "st_overdue s = int (length (filter ?late ?own))"
    by (simp add: s_def get_statistics_def Let_def)
  then have cnt: "st_overdue s = int (length (filter
            (\<lambda>t. user_id t = uid \<and> \<not> completed t \<and> (\<exists>dd. due_date t = Some dd \<and> dd < now))
            (rows d)))"
    by (simp only: late)
  have empty: "s = \<lparr>st_total = 0, st_completed = 0, st_pending = 0, st_overdue = 0\<rparr>"
    if "\<forall>t \<in> set (rows d). user_id t \<noteq> uid"
  proof -
    from that have "?own = []" by (simp add: filter_empty_conv)
    then show ?thesis by (simp add: s_def get_statistics_def Let_def)
  qed
  from sum le cnt empty show ?thesis unfolding s_def Let_def by blast
qed

theorem statistics_identity_witness:
  "3 \<notin> user_id ` set (rows sample_db) \<and>
   get_statistics 100 sample_db 3 =
     \<lparr>st_total = 0, st_completed = 0, st_pending = 0, st_overdue = 0\<rparr> \<and>
   get_statistics 100 sample_db 1 =
     \<lparr>st_total = 4, st_completed = 1, st_pending = 3, st_overdue = 1\<rparr>"
proof -
  have h: "\<forall>t \<in> set (rows sample_db). user_id t \<noteq> 3"
    by (simp add: sample_db_def sample_rows_def mk_task_def)
  have "get_statistics 100 sample_db 1 =
     \<lparr>st_total = 4, st_completed = 1, st_pending = 3, st_overdue = 1\<rparr>"
    by (simp add: get_statistics_def sample_db_def sample_rows_def mk_task_def)
  moreover have "3 \<notin> user_id ` set (rows sample_db)"
    by (simp add: sample_db_def sample_rows_def mk_task_def)
  ultimately show ?thesis
    using h statistics_identity [of 100 sample_db 3] by (simp add: Let_def)
qed

section \<open>Query engine\<close>

lemma lower_char_idem: "lower_char (lower_char c) = lower_char c"
  by (simp add: lower_char_def latin_upper_def latin_lower_def)

lemma lower_idem: "lower (lower s) = lower s"
  by (simp add: lower_def lower_char_idem)

lemma lower_Nil_iff: "lower s = [] \<longleftrightarrow> s = []"
  by (simp add: lower_def)

lemma set_order_by: "set (order_by key dir xs) = set xs"
  by (simp add: order_by_def)

lemma length_order_by: "length (order_by key dir xs) = length xs"
  by (simp add: order_by_def)

lemma set_apply_sorting: "set (apply_sorting sf sd ts) = set ts"
  by (auto simp: apply_sorting_def order_by_nullable_def order_by_nulls_last_def
      set_order_by Let_def)

lemma length_filter_nulls:
  "length (filter (\<lambda>x. key x \<noteq> None) xs) + length (filter (\<lambda>x. key x = None) xs) = length xs"
  by (induction xs) auto

lemma length_order_by_nullable: "length (order_by_nullable key dir xs) = length xs"
  using length_filter_nulls [of key xs]
  by (simp add: order_by_nullable_def length_order_by Let_def)

lemma length_order_by_nulls_last: "length (order_by_nulls_last key dir xs) = length xs"
  using length_filter_nulls [of key xs]
  by (simp add: order_by_nulls_last_def length_order_by)

lemma length_apply_sorting: "length (apply_sorting sf sd ts) = length ts"
  by (simp add: apply_sorting_def length_order_by_nullable length_order_by_nulls_last
      length_order_by)

lemma status_where_lower: "status_where (Some (lower s)) = status_where (Some s)"
  by (rule ext) (simp add: status_where_def lower_idem lower_Nil_iff)

lemma status_where_no_filter:
  assumes "status = None \<or>
     (\<exists>s. status = Some s \<and> lower s \<noteq> ''pending'' \<and> lower s \<noteq> ''completed'')"
  shows "status_where status t"
  using assms by (auto simp: status_where_def)

lemma status_where_pending:
  assumes "lower s = ''pending''"
  shows "status_where (Some s) t = (\<not> completed t)"
proof -
  from assms have "s \<noteq> []" by (auto simp: lower_def)
  with assms show ?thesis by (simp add: status_where_def)
qed

lemma status_where_completed:
  assumes "lower s = ''completed''"
  shows "status_where (Some s) t = completed t"
proof -
  from assms have "s \<noteq> []" by (auto simp: lower_def)
  with assms show ?thesis by (simp add: status_where_def)
qed

text \<open>
  C9. A status that is absent, or whose lowercased value is neither "pending" nor
  "completed" ("all" and any other string), applies no completion filter: the status
  clause holds of every task, the filtered set is the table filtered by owner,
  priority, due date, tags and search alone, and the query returns exactly what it
  returns for status "all". The comparison ignores case: a status whose lowercased
  value is "pending" keeps exactly the tasks that are not completed, one whose
  lowercased value is "completed" exactly those that are, and a status and its
  lowercased form give the same result.
\<close>

theorem status_filter_default:
  "((status = None \<or>
     (\<exists>s. status = Some s \<and> lower s \<noteq> ''pending'' \<and> lower s \<noteq> ''completed'')) \<longrightarrow>
      (\<forall>t. status_where status t) \<and>
      statement f d uid status prio due tgs search =
        filter (\<lambda>t. user_id t = uid \<and> priority_where prio t \<and> due_date_where f due t \<and>
                    tags_where tgs t \<and> search_where search t) (rows d) \<and>
      get_tasks f d uid status prio due tgs search sf sd page limit =
      get_tasks f d uid (Some ''all'') prio due tgs search sf sd page limit \<and>
      statement f d uid status prio due tgs search =
      statement f d uid None prio due tgs search) \<and>
   (lower s' = ''pending'' \<longrightarrow>
      (\<forall>t. status_where (Some s') t = (\<not> completed t)) \<and>
      statement f d uid (Some s') prio due tgs search =
        filter (\<lambda>t. user_id t = uid \<and> \<not> completed t \<and> priority_where prio t \<and>
                    due_date_where f due t \<and> tags_where tgs t \<and> search_where search t) (rows d)) \<and>
   (lower s' = ''completed'' \<longrightarrow>
      (\<forall>t. status_where (Some s') t = completed t) \<and>
      statement f d uid (Some s') prio due tgs search =
        filter (\<lambda>t. user_id t = uid \<and> completed t \<and> priority_where prio t \<and>
                    due_date_where f due t \<and> tags_where tgs t \<and> search_where search t) (rows d)) \<and>
   get_tasks f d uid (Some s') prio due tgs search sf sd page limit =
   get_tasks f d uid (Some (lower s')) prio due tgs search sf sd page limit"
proof -
  have low: "get_tasks f d uid (Some s') prio due tgs search sf sd page limit =
        get_tasks f d uid (Some (lower s')) prio due tgs search sf sd page limit"
    by (simp add: get_tasks_def statement_def status_where_lower)
  have none: "(\<forall>t. status_where status t) \<and>
      statement f d uid status prio due tgs search =
        filter (\<lambda>t. user_id t = uid \<and> priority_where prio t \<and> due_date_where f due t \<and>
                    tags_where tgs t \<and> search_where search t) (rows d) \<and>
      get_tasks f d uid status prio due tgs search sf sd page limit =
      get_tasks f d uid (Some ''all'') prio due tgs search sf sd page limit \<and>
      statement f d uid status prio due tgs search =
      statement f d uid None prio due tgs search"
    if h: "status = None \<or>
     (\<exists>s. status = Some s \<and> lower s \<noteq> ''pending'' \<and> lower s \<noteq> ''completed'')"
  proof -
    have a: "status_where status t" for t
      using h by (rule status_where_no_filter)
    have b: "status_where (Some ''all'') t" for t
      by (simp add: status_where_def lower_def lower_char_def latin_upper_def latin_lower_def)
    have c: "status_where None t" for t
      by (simp add: status_where_def)
    from a b c show ?thesis
      by (simp add: get_tasks_def statement_def)
  qed
  have pend: "(\<forall>t. status_where (Some s') t = (\<not> completed t)) \<and>
      statement f d uid (Some s') prio due tgs search =
        filter (\<lambda>t. user_id t = uid \<and> \<not> completed t \<and> priority_where prio t \<and>
                    due_date_where f due t \<and> tags_where tgs t \<and> search_where search t) (rows d)"
    if "lower s' = ''pending''"
    using status_where_pending [OF that] by (simp add: statement_def)
  have comp: "(\<forall>t. status_where (Some s') t = completed t) \<and>
      statement f d uid (Some s') prio due tgs search =
        filter (\<lambda>t. user_id t = uid \<and> completed t \<and> priority_where prio t \<and>
                    due_date_where f due t \<and> tags_where tgs t \<and> search_where search t) (rows d)"
    if "lower s' = ''completed''"
    using status_where_completed [OF that] by (simp add: statement_def)
  from low none pend comp show ?thesis by blast
qed

theorem status_filter_default_witness:
  "lower ''Archived'' \<noteq> ''pending'' \<and> lower ''Archived'' \<noteq> ''completed'' \<and>
   lower ''PENDING'' = ''pending'' \<and> lower ''Completed'' = ''completed'' \<and>
   map task_id (statement no_date sample_db 1 (Some ''Archived'') None None None None) =
     [1, 2, 3, 4] \<and>
   map completed (statement no_date sample_db 1 (Some ''Archived'') None None None None) =
     [False, True, False, False] \<and>
   map task_id (statement no_date sample_db 1 (Some ''PENDING'') None None None None) =
     [1, 3, 4] \<and>
   map task_id (statement no_date sample_db 1 (Some ''Completed'') None None None None) = [2] \<and>
   get_tasks no_date sample_db 1 (Some ''Archived'') None None None None None None 1 20 =
   get_tasks no_date sample_db 1 (Some ''all'') None None None None None None 1 20 \<and>
   get_tasks no_date sample_db 1 (Some ''PENDING'') None None None None None None 1 20 =
   get_tasks no_date sample_db 1 (Some ''pending'') None None None None None None 1 20"
proof -
  have h: "lower ''Archived'' \<noteq> ''pending'' \<and> lower ''Archived'' \<noteq> ''completed''"
    by (simp add: lower_def lower_char_def latin_upper_def latin_lower_def)
  have e: "lower ''PENDING'' = ''pending''" and e': "lower ''Completed'' = ''completed''"
    by (simp_all add: lower_def lower_char_def latin_upper_def latin_lower_def)
  have w: "priority_where None t \<and> due_date_where no_date None t \<and> tags_where None t \<and>
      search_where None t" for t
    by (simp add: priority_where_def due_date_where_def tags_where_def search_where_def)
  note thm1 = status_filter_default [where status = "Some ''Archived''" and s' = "''PENDING''"
      and f = no_date and d = sample_db and uid = 1 and prio = None and due = None
      and tgs = None and search = None and sf = None and sd = None and page = 1 and limit = 20]
  note thm2 = status_filter_default [where status = "Some ''Archived''" and s' = "''Completed''"
      and f = no_date and d = sample_db and uid = 1 and prio = None and due = None
      and tgs = None and search = None and sf = None and sd = None and page = 1 and limit = 20]
  from thm1 h have a: "statement no_date sample_db 1 (Some ''Archived'') None None None None =
      filter (\<lambda>t. user_id t = 1) (rows sample_db)"
    by (simp add: w)
  from thm1 e have p: "statement no_date sample_db 1 (Some ''PENDING'') None None None None =
      filter (\<lambda>t. user_id t = 1 \<and> \<not> completed t) (rows sample_db)"
    by (simp add: w)
  from thm2 e' have c: "statement no_date sample_db 1 (Some ''Completed'') None None None None =
      filter (\<lambda>t. user_id t = 1 \<and> completed t) (rows sample_db)"
    by (simp add: w)
  from thm1 h have g1:
    "get_tasks no_date sample_db 1 (Some ''Archived'') None None None None None None 1 20 =
     get_tasks no_date sample_db 1 (Some ''all'') None None None None None None 1 20"
    by simp
  from thm1 e have g2:
    "get_tasks no_date sample_db 1 (Some ''PENDING'') None None None None None None 1 20 =
     get_tasks no_date sample_db 1 (Some ''pending'') None None None None None None 1 20"
    by simp
  show ?thesis
    unfolding a p c using h e e' g1 g2
    by (simp add: sample_db_def sample_rows_def mk_task_def)
qed

section \<open>Pagination\<close>

text \<open>
  C6. For page \<ge> 1 and limit in [1,100] the query succeeds; its total count is the
  size of the filtered set, taken before pagination; the query with the same filters,
  page 1 and limit = total count returns the whole ordered filtered set, of exactly
  total-count rows; and the page returned is the slice of size limit at offset
  (page - 1) * limit of that ordered set.
\<close>

theorem count_before_pagination:
  assumes "1 \<le> page" and "1 \<le> limit" and "limit \<le> 100"
  shows "\<exists>ts all n.
     get_tasks f d uid status prio due tgs search sf sd page limit = Inr (ts, n) \<and>
     get_tasks f d uid status prio due tgs search sf sd 1 n = Inr (all, n) \<and>
     n = int (length (statement f d uid status prio due tgs search)) \<and>
     int (length all) = n \<and>
     all = apply_sorting sf sd (statement f d uid status prio due tgs search) \<and>
     ts = take (nat limit) (drop (nat ((page - 1) * limit)) all)"
proof -
  let ?stmt = "statement f d uid status prio due tgs search"
  let ?all = "apply_sorting sf sd ?stmt"
  let ?n = "int (length ?stmt)"
  from assms have off: "\<not> ((page - 1) * limit < 0)" and lim: "\<not> limit < 0"
    by (simp_all add: zero_le_mult_iff not_less)
  have page: "get_tasks f d uid status prio due tgs search sf sd page limit =
      Inr (take (nat limit) (drop (nat ((page - 1) * limit)) ?all), ?n)"
    using off lim by (simp add: get_tasks_def Let_def)
  have full: "get_tasks f d uid status prio due tgs search sf sd 1 ?n = Inr (?all, ?n)"
    by (simp add: get_tasks_def Let_def length_apply_sorting)
  have len: "int (length ?all) = ?n"
    by (simp add: length_apply_sorting)
  from page full len show ?thesis by blast
qed

theorem count_before_pagination_witness:
  "(1::int) \<le> 2 \<and> (1::int) \<le> 2 \<and> (2::int) \<le> 100 \<and>
   (\<exists>ts all.
      get_tasks no_date sample_db 1 None None None None None None (Some ''asc'') 2 2 = Inr (ts, 4) \<and>
      get_tasks no_date sample_db 1 None None None None None None (Some ''asc'') 1 4 = Inr (all, 4) \<and>
      map task_id all = [1, 2, 3, 4] \<and> map task_id ts = [3, 4])"
proof -
  have n: "int (length (statement no_date sample_db 1 None None None None None)) = 4"
    by (simp add: statement_def sample_db_def sample_rows_def mk_task_def status_where_def
        priority_where_def due_date_where_def tags_where_def search_where_def)
  have a: "map task_id (apply_sorting None (Some ''asc'')
             (statement no_date sample_db 1 None None None None None)) = [1, 2, 3, 4]"
    by (simp add: statement_def sample_db_def sample_rows_def mk_task_def status_where_def
        priority_where_def due_date_where_def tags_where_def search_where_def
        apply_sorting_def order_by_def)
  from count_before_pagination [of 2 2 no_date sample_db 1 None None None None None None
      "Some ''asc''"]
  obtain ts all n where
    p: "get_tasks no_date sample_db 1 None None None None None None (Some ''asc'') 2 2 = Inr (ts, n)"
    and q: "get_tasks no_date sample_db 1 None None None None None None (Some ''asc'') 1 n = Inr (all, n)"
    and r: "n = int (length (statement no_date sample_db 1 None None None None None))"
    and s: "all = apply_sorting None (Some ''asc'') (statement no_date sample_db 1 None None None None None)"
    and t: "ts = take (nat 2) (drop (nat ((2 - 1) * 2)) all)"
    by auto
  from r n have n4: "n = 4" by simp
  from s a have ma: "map task_id all = [1, 2, 3, 4]" by simp
  have "map task_id ts = take 2 (drop 2 (map task_id all))"
    by (simp add: t take_map drop_map)
  with ma have "map task_id ts = [3, 4]" by simp
  with p q n4 ma show ?thesis by auto
qed

section \<open>Tags filter\<close>

lemma tags_loop_iff:
  "tags_loop tag_list t \<longleftrightarrow>
   (\<forall>tag \<in> set (filter (\<lambda>x. x \<noteq> []) (map strip tag_list)). tag \<in> set (tags t))"
  by (induction tag_list) auto

lemma in_some_page:
  assumes "0 < L"
  shows "x \<in> set xs \<longleftrightarrow> (\<exists>p. x \<in> set (take L (drop (p * L) xs)))"
proof
  assume "x \<in> set xs"
  then obtain i where i: "i < length xs" "xs ! i = x"
    by (auto simp: in_set_conv_nth)
  let ?p = "i div L"
  have eq: "?p * L + i mod L = i" by simp
  have m: "i mod L < L" using assms by simp
  from i(1) have len: "i mod L < length (drop (?p * L) xs)"
    using eq by (simp add: less_diff_conv)
  have "take L (drop (?p * L) xs) ! (i mod L) = xs ! i"
    using m len i(1) eq by (simp add: add.commute)
  moreover have "i mod L < length (take L (drop (?p * L) xs))"
    using m len by simp
  ultimately have "x \<in> set (take L (drop (?p * L) xs))"
    using i(2) by (metis nth_mem)
  then show "\<exists>p. x \<in> set (take L (drop (p * L) xs))" ..
next
  assume "\<exists>p. x \<in> set (take L (drop (p * L) xs))"
  then show "x \<in> set xs"
    by (auto dest: in_set_takeD in_set_dropD)
qed

lemma get_tasks_some_page:
  assumes "1 \<le> limit"
  shows "(\<exists>page ts n. 1 \<le> page \<and>
            get_tasks f d uid st pr du tg se sf sd page limit = Inr (ts, n) \<and> t \<in> set ts) \<longleftrightarrow>
         t \<in> set (statement f d uid st pr du tg se)"
proof
  assume "\<exists>page ts n. 1 \<le> page \<and>
            get_tasks f d uid st pr du tg se sf sd page limit = Inr (ts, n) \<and> t \<in> set ts"
  then obtain page ts n where
    g: "get_tasks f d uid st pr du tg se sf sd page limit = Inr (ts, n)" and t: "t \<in> set ts"
    by blast
  from g have "ts = take (nat limit) (drop (nat ((page - 1) * limit))
      (apply_sorting sf sd (statement f d uid st pr du tg se)))"
    by (auto simp: get_tasks_def Let_def split: if_splits)
  with t have "t \<in> set (apply_sorting sf sd (statement f d uid st pr du tg se))"
    by (auto dest: in_set_takeD in_set_dropD)
  then show "t \<in> set (statement f d uid st pr du tg se)"
    by (simp add: set_apply_sorting)
next
  let ?all = "apply_sorting sf sd (statement f d uid st pr du tg se)"
  assume "t \<in> set (statement f d uid st pr du tg se)"
  then have "t \<in> set ?all" by (simp add: set_apply_sorting)
  moreover from assms have "0 < nat limit" by simp
  ultimately obtain p where p: "t \<in> set (take (nat limit) (drop (p * nat limit) ?all))"
    using in_some_page [of "nat limit" t ?all] by blast
  let ?page = "int p + 1"
  from assms have off: "nat ((?page - 1) * limit) = p * nat limit"
    by (simp add: nat_mult_distrib)
  from assms have ok: "\<not> ((?page - 1) * limit < 0) \<and> \<not> limit < 0"
    by (simp add: not_less)
  have "get_tasks f d uid st pr du tg se sf sd ?page limit =
      Inr (take (nat limit) (drop (p * nat limit) ?all),
           int (length (statement f d uid st pr du tg se)))"
    using ok off by (simp add: get_tasks_def Let_def)
  with p show "\<exists>page ts n. 1 \<le> page \<and>
            get_tasks f d uid st pr du tg se sf sd page limit = Inr (ts, n) \<and> t \<in> set ts"
    by (intro exI [of _ ?page]) auto
qed

lemma statement_tags:
  "statement f d uid st pr du (Some s) se =
   filter (tags_loop (split_on (CHR '','') s)) (statement f d uid st pr du None se)"
  unfolding statement_def filter_filter
  by (rule filter_cong) (auto simp: tags_where_def)

text \<open>
  C1, as the code has it. For any page size of at least 1, a task appears in the result
  of a query with a tags filter (on some page) exactly when it appears in the result of
  the same query without the tags filter (on some page) and its tags contain every
  non-empty stripped tag of the comma-separated filter string (all-of); a filter string
  without any non-empty tag filters nothing. When the matches of the query without the
  tags filter fit on page 1, page 1 of the query with the filter holds exactly those of
  them that carry all the tags, and its total count is their number.
\<close>

theorem tags_filter_all_of:
  "(1 \<le> limit \<longrightarrow>
      ((\<exists>page ts n. 1 \<le> page \<and>
           get_tasks f d uid status prio due (Some s) search sf sd page limit = Inr (ts, n) \<and>
           t \<in> set ts) \<longleftrightarrow>
       (\<exists>page ts0 n0. 1 \<le> page \<and>
           get_tasks f d uid status prio due None search sf sd page limit = Inr (ts0, n0) \<and>
           t \<in> set ts0) \<and>
       (\<forall>tag \<in> set (filter (\<lambda>x. x \<noteq> []) (map strip (split_on (CHR '','') s))).
           tag \<in> set (tags t)))) \<and>
   (\<forall>ts0 n0.
      get_tasks f d uid status prio due None search sf sd 1 limit = Inr (ts0, n0) \<and> n0 \<le> limit \<longrightarrow>
      (\<exists>ts n.
         get_tasks f d uid status prio due (Some s) search sf sd 1 limit = Inr (ts, n) \<and>
         n = int (length ts) \<and>
         (\<forall>r. r \<in> set ts \<longleftrightarrow>
            r \<in> set ts0 \<and>
            (\<forall>tag \<in> set (filter (\<lambda>x. x \<noteq> []) (map strip (split_on (CHR '','') s))).
               tag \<in> set (tags r)))))"
proof -
  let ?wanted = "filter (\<lambda>x. x \<noteq> []) (map strip (split_on (CHR '','') s))"
  let ?st = "statement f d uid status prio due (Some s) search"
  let ?base = "statement f d uid status prio due None search"
  have mem: "r \<in> set ?st \<longleftrightarrow> r \<in> set ?base \<and> (\<forall>tag \<in> set ?wanted. tag \<in> set (tags r))" for r
  proof -
    have "r \<in> set ?st \<longleftrightarrow> r \<in> set ?base \<and> tags_loop (split_on (CHR '','') s) r"
      unfolding statement_tags by auto
    then show ?thesis unfolding tags_loop_iff .
  qed
  have pages: "(\<exists>page ts n. 1 \<le> page \<and>
           get_tasks f d uid status prio due (Some s) search sf sd page limit = Inr (ts, n) \<and>
           t \<in> set ts) \<longleftrightarrow>
       (\<exists>page ts0 n0. 1 \<le> page \<and>
           get_tasks f d uid status prio due None search sf sd page limit = Inr (ts0, n0) \<and>
           t \<in> set ts0) \<and>
       (\<forall>tag \<in> set ?wanted. tag \<in> set (tags t))"
    if "1 \<le> limit"
    unfolding get_tasks_some_page [OF that] by (rule mem)
  have single: "\<exists>ts n.
         get_tasks f d uid status prio due (Some s) search sf sd 1 limit = Inr (ts, n) \<and>
         n = int (length ts) \<and>
         (\<forall>r. r \<in> set ts \<longleftrightarrow>
            r \<in> set ts0 \<and> (\<forall>tag \<in> set ?wanted. tag \<in> set (tags r)))"
    if g: "get_tasks f d uid status prio due None search sf sd 1 limit = Inr (ts0, n0)"
      and n: "n0 \<le> limit" for ts0 n0
  proof -
    from g have lim: "\<not> limit < 0" and n0: "n0 = int (length ?base)"
      and ts0: "ts0 = take (nat limit) (apply_sorting sf sd ?base)"
      by (auto simp: get_tasks_def Let_def split: if_splits)
    from n n0 have fit0: "length ?base \<le> nat limit" by simp
    with ts0 have all0: "ts0 = apply_sorting sf sd ?base"
      by (simp add: length_apply_sorting)
    have "length ?st \<le> length ?base"
      by (simp add: statement_tags)
    with fit0 have fit: "length (apply_sorting sf sd ?st) \<le> nat limit"
      by (simp add: length_apply_sorting)
    with lim have "get_tasks f d uid status prio due (Some s) search sf sd 1 limit =
        Inr (apply_sorting sf sd ?st, int (length ?st))"
      by (simp add: get_tasks_def Let_def)
    with all0 mem show ?thesis
      by (simp add: length_apply_sorting set_apply_sorting)
  qed
  from pages single show ?thesis by blast
qed

theorem tags_filter_all_of_witness:
  "(1::int) \<le> 1 \<and> (4::int) \<le> 4 \<and> \<not> int (length (rows sample_db)) \<le> 4 \<and>
   filter (\<lambda>x. x \<noteq> []) (map strip (split_on (CHR '','') ''work, urgent,'')) = [''work'', ''urgent''] \<and>
   tags (sample_rows ! 0) = [''work'', ''urgent''] \<and> tags (sample_rows ! 3) = [''work''] \<and>
   get_tasks no_date sample_db 1 None None None None None None None 1 4
     = Inr ([sample_rows ! 3, sample_rows ! 2, sample_rows ! 1, sample_rows ! 0], 4) \<and>
   get_tasks no_date sample_db 1 None None None (Some ''work, urgent,'') None None None 1 4
     = Inr ([sample_rows ! 0], 1) \<and>
   get_tasks no_date sample_db 1 None None None None None None None 4 1
     = Inr ([sample_rows ! 0], 4) \<and>
   (\<exists>page ts n. 1 \<le> page \<and>
      get_tasks no_date sample_db 1 None None None (Some ''work,urgent'') None None None page 1
        = Inr (ts, n) \<and>
      sample_rows ! 0 \<in> set ts)"
proof -
  have big: "\<not> int (length (rows sample_db)) \<le> 4"
    by (simp add: sample_db_def sample_rows_def)
  have sp: "filter (\<lambda>x. x \<noteq> []) (map strip (split_on (CHR '','') ''work, urgent,'')) =
      [''work'', ''urgent'']"
    by (simp add: strip_def is_space_def)
  have sp': "filter (\<lambda>x. x \<noteq> []) (map strip (split_on (CHR '','') ''work,urgent'')) =
      [''work'', ''urgent'']"
    by (simp add: strip_def is_space_def)
  have tg: "tags (sample_rows ! 0) = [''work'', ''urgent''] \<and> tags (sample_rows ! 3) = [''work'']"
    by (simp add: sample_rows_def mk_task_def)
  have a: "get_tasks no_date sample_db 1 None None None None None None None 1 4
       = Inr ([sample_rows ! 3, sample_rows ! 2, sample_rows ! 1, sample_rows ! 0], 4)"
    by (simp add: get_tasks_def statement_def sample_db_def sample_rows_def mk_task_def
        apply_sorting_def order_by_def status_where_def priority_where_def due_date_where_def
        tags_where_def search_where_def)
  have b: "get_tasks no_date sample_db 1 None None None (Some ''work, urgent,'') None None None 1 4
       = Inr ([sample_rows ! 0], 1)"
    by (simp add: get_tasks_def statement_def sample_db_def sample_rows_def mk_task_def
        apply_sorting_def order_by_def status_where_def priority_where_def due_date_where_def
        tags_where_def search_where_def strip_def is_space_def)
  have c: "get_tasks no_date sample_db 1 None None None None None None None 4 1
       = Inr ([sample_rows ! 0], 4)"
    by (simp add: get_tasks_def statement_def sample_db_def sample_rows_def mk_task_def
        apply_sorting_def order_by_def status_where_def priority_where_def due_date_where_def
        tags_where_def search_where_def)
  have le: "(4::int) \<le> 4" by simp
  have "\<forall>ts0 n0.
      get_tasks no_date sample_db 1 None None None None None None None 1 4 = Inr (ts0, n0) \<and>
      n0 \<le> 4 \<longrightarrow>
      (\<exists>ts n.
         get_tasks no_date sample_db 1 None None None (Some ''work, urgent,'') None None None 1 4
           = Inr (ts, n) \<and>
         n = int (length ts) \<and>
         (\<forall>r. r \<in> set ts \<longleftrightarrow>
            r \<in> set ts0 \<and>
            (\<forall>tag \<in> set (filter (\<lambda>x. x \<noteq> []) (map strip (split_on (CHR '','') ''work, urgent,''))).
               tag \<in> set (tags r))))"
    using tags_filter_all_of [where limit = 4 and s = "''work, urgent,''" and f = no_date
        and d = sample_db and uid = 1 and status = None and prio = None and due = None
        and search = None and sf = None and sd = None and t = "sample_rows ! 0"]
    by (rule conjunct2)
  with a le have single: "\<exists>ts n.
      get_tasks no_date sample_db 1 None None None (Some ''work, urgent,'') None None None 1 4
        = Inr (ts, n) \<and> n = int (length ts)"
    by blast
  have "\<exists>page ts0 n0. 1 \<le> page \<and>
      get_tasks no_date sample_db 1 None None None None None None None page 1 = Inr (ts0, n0) \<and>
      sample_rows ! 0 \<in> set ts0"
    using c by (intro exI [of _ 4] exI [of _ "[sample_rows ! 0]"] exI [of _ 4]) simp
  moreover have "\<forall>tag \<in> set (filter (\<lambda>x. x \<noteq> []) (map strip (split_on (CHR '','') ''work,urgent''))).
      tag \<in> set (tags (sample_rows ! 0))"
    unfolding sp' using tg by simp
  ultimately have ex: "\<exists>page ts n. 1 \<le> page \<and>
      get_tasks no_date sample_db 1 None None None (Some ''work,urgent'') None None None page 1
        = Inr (ts, n) \<and>
      sample_rows ! 0 \<in> set ts"
    using tags_filter_all_of [where limit = 1 and s = "''work,urgent''" and f = no_date
        and d = sample_db and uid = 1 and status = None and prio = None and due = None
        and search = None and sf = None and sd = None and t = "sample_rows ! 0"]
    by simp
  from big sp tg a b c single ex show ?thesis by simp
qed

text \<open>
  C1 as stated (any-of) fails: the task "Fix bug" of the sample store passes the other
  filters and carries the tag "work", one of the tags of the filter "work,urgent", and
  the query with that filter does not return it.
\<close>

theorem tags_filter_any_of_counterexample:
  "sample_rows ! 3 \<in> set (fst (projr
     (get_tasks no_date sample_db 1 None None None None None None None 1 20))) \<and>
   ''work'' \<in> set (tags (sample_rows ! 3)) \<and>
   ''work'' \<in> set (map strip (split_on (CHR '','') ''work,urgent'')) \<and>
   sample_rows ! 3 \<notin> set (fst (projr
     (get_tasks no_date sample_db 1 None None None (Some ''work,urgent'') None None None 1 20)))"
  by (simp add: get_tasks_def statement_def sample_db_def sample_rows_def mk_task_def
        apply_sorting_def order_by_def status_where_def priority_where_def due_date_where_def
        tags_where_def search_where_def strip_def is_space_def)

section \<open>Priority order\<close>

text \<open>
  C4. On the owner's tasks with priorities high, medium, low, high the priority sort
  follows the rank high = 1, medium = 2, low = 3 (not the alphabetical order of the
  names): ascending gives high, high, medium, low. With direction "desc" the rank
  is descending and the query returns low, medium, high, high.
\<close>

theorem priority_sort_desc_low_first:
  "map priority (fst (projr (get_tasks no_date sample_db 1 None None None None None
      (Some ''priority'') (Some ''desc'') 1 20))) = [''low'', ''medium'', ''high'', ''high''] \<and>
   map priority (fst (projr (get_tasks no_date sample_db 1 None None None None None
      (Some ''priority'') (Some ''asc'') 1 20))) = [''high'', ''high'', ''medium'', ''low''] \<and>
   map priority (filter (\<lambda>t. user_id t = 1) (rows sample_db)) =
      [''high'', ''medium'', ''low'', ''high'']"
  by (simp add: get_tasks_def statement_def sample_db_def sample_rows_def mk_task_def
        apply_sorting_def order_by_nullable_def order_by_def priority_order_def
        status_where_def priority_where_def due_date_where_def
        tags_where_def search_where_def)

section \<open>Lookups under an owner\<close>

lemma get_task_by_id_Some:
  "get_task_by_id d uid tid = Some t \<Longrightarrow> t \<in> set (rows d) \<and> task_id t = tid \<and> user_id t = uid"
  by (auto simp: get_task_by_id_def find_Some_iff)

lemma get_task_by_id_None:
  "get_task_by_id d uid tid = None \<longleftrightarrow>
   \<not> (\<exists>r \<in> set (rows d). task_id r = tid \<and> user_id r = uid)"
  by (auto simp: get_task_by_id_def find_None_iff)

lemma pk_unique_row:
  assumes "pk_unique d" and "r \<in> set (rows d)" and "t \<in> set (rows d)"
    and "task_id r = task_id t"
  shows "r = t"
proof -
  from assms(1) have "inj_on task_id (set (rows d))"
    by (simp add: pk_unique_def distinct_map)
  with assms(2-4) show ?thesis by (simp add: inj_on_eq_iff)
qed

lemma other_owner_None:
  assumes "pk_unique d" and "t \<in> set (rows d)" and "user_id t = A" and "B \<noteq> A"
  shows "get_task_by_id d B (task_id t) = None"
proof -
  have "\<not> (\<exists>r \<in> set (rows d). task_id r = task_id t \<and> user_id r = B)"
  proof
    assume "\<exists>r \<in> set (rows d). task_id r = task_id t \<and> user_id r = B"
    then obtain r where r: "r \<in> set (rows d)" "task_id r = task_id t" "user_id r = B"
      by blast
    with assms(1,2) have "r = t" by (auto intro: pk_unique_row)
    with r assms(3,4) show False by simp
  qed
  then show ?thesis by (simp add: get_task_by_id_None)
qed

lemma filter_others_save:
  "task_id t' = tid \<Longrightarrow>
   filter (\<lambda>r. task_id r \<noteq> tid) (map (\<lambda>r. if task_id r = tid then t' else r) xs) =
   filter (\<lambda>r. task_id r \<noteq> tid) xs"
  by (induction xs) auto

section \<open>Toggle\<close>

text \<open>
  C10. For a task the caller owns, \<open>toggle_complete\<close> succeeds for either value of the
  flag (its result type carries no error: nothing is validated and nothing is raised);
  the task returned has the given completed value and the same title, description,
  priority, due date, tags, owner, id and created timestamp; the table afterwards is the
  table before with that one row replaced, so every other task is unchanged, and the
  change is committed.
\<close>

theorem toggle_complete_frame:
  assumes "get_task_by_id d uid tid = Some t"
  shows "\<exists>d' t'. toggle_complete now d uid tid c = (d', Some t') \<and>
     completed t' = c \<and>
     title t' = title t \<and> description t' = description t \<and> priority t' = priority t \<and>
     due_date t' = due_date t \<and> tags t' = tags t \<and> user_id t' = user_id t \<and>
     task_id t' = task_id t \<and> created_at t' = created_at t \<and>
     rows d' = map (\<lambda>r. if task_id r = tid then t' else r) (rows d) \<and>
     filter (\<lambda>r. task_id r \<noteq> tid) (rows d') = filter (\<lambda>r. task_id r \<noteq> tid) (rows d) \<and>
     committed d' = rows d' \<and> next_id d' = next_id d \<and>
     (clean d \<longrightarrow>
        filter (\<lambda>r. task_id r \<noteq> tid) (committed d') =
        filter (\<lambda>r. task_id r \<noteq> tid) (committed d))"
proof -
  from assms have tid: "task_id t = tid" by (simp add: get_task_by_id_Some)
  define t' where "t' = touch now (t\<lparr>completed := c\<rparr>)"
  define d' where "d' = commit (save t' d)"
  have res: "toggle_complete now d uid tid c = (d', Some t')"
    using assms by (simp add: toggle_complete_def t'_def d'_def Let_def)
  have rws: "rows d' = map (\<lambda>r. if task_id r = tid then t' else r) (rows d)"
    using tid by (simp add: d'_def commit_def save_def t'_def touch_def)
  have others: "filter (\<lambda>r. task_id r \<noteq> tid) (rows d') = filter (\<lambda>r. task_id r \<noteq> tid) (rows d)"
    unfolding rws using tid by (intro filter_others_save) (simp add: t'_def touch_def)
  have fields: "completed t' = c \<and>
     title t' = title t \<and> description t' = description t \<and> priority t' = priority t \<and>
     due_date t' = due_date t \<and> tags t' = tags t \<and> user_id t' = user_id t \<and>
     task_id t' = task_id t \<and> created_at t' = created_at t"
    by (simp add: t'_def touch_def)
  have st: "committed d' = rows d' \<and> next_id d' = next_id d"
    by (simp add: d'_def commit_def save_def)
  from others st have cl: "clean d \<longrightarrow>
        filter (\<lambda>r. task_id r \<noteq> tid) (committed d') =
        filter (\<lambda>r. task_id r \<noteq> tid) (committed d)"
    by (simp add: clean_def)
  from res rws others fields st cl show ?thesis by blast
qed


theorem toggle_complete_frame_witness:
  "get_task_by_id sample_db 1 2 = Some (sample_rows ! 1) \<and>
   completed (sample_rows ! 1) \<and> title (sample_rows ! 1) = ''Buy milk'' \<and>
   (\<exists>d' t'. toggle_complete 100 sample_db 1 2 False = (d', Some t') \<and>
      \<not> completed t' \<and> title t' = ''Buy milk'' \<and>
      rows d' = (sample_rows [1 := t']) \<and> committed d' = rows d')"
proof -
  have h: "get_task_by_id sample_db 1 2 = Some (sample_rows ! 1)"
    by (simp add: get_task_by_id_def sample_db_def sample_rows_def mk_task_def)
  have e: "toggle_complete 100 sample_db 1 2 False =
      (commit (save (touch 100 ((sample_rows ! 1)\<lparr>completed := False\<rparr>)) sample_db),
       Some (touch 100 ((sample_rows ! 1)\<lparr>completed := False\<rparr>)))"
    using h by (simp add: toggle_complete_def Let_def)
  have r: "rows (commit (save (touch 100 ((sample_rows ! 1)\<lparr>completed := False\<rparr>)) sample_db)) =
      sample_rows [1 := touch 100 ((sample_rows ! 1)\<lparr>completed := False\<rparr>)]"
    by (simp add: commit_def save_def touch_def sample_db_def sample_rows_def mk_task_def)
  have c: "committed (commit (save (touch 100 ((sample_rows ! 1)\<lparr>completed := False\<rparr>)) sample_db)) =
      rows (commit (save (touch 100 ((sample_rows ! 1)\<lparr>completed := False\<rparr>)) sample_db))"
    by (simp add: commit_def)
  have f: "completed (sample_rows ! 1) \<and> title (sample_rows ! 1) = ''Buy milk''"
    by (simp add: sample_rows_def mk_task_def)
  have g: "\<not> completed (touch 100 ((sample_rows ! 1)\<lparr>completed := False\<rparr>)) \<and>
      title (touch 100 ((sample_rows ! 1)\<lparr>completed := False\<rparr>)) = ''Buy milk''"
    by (simp add: touch_def sample_rows_def mk_task_def)
  from toggle_complete_frame [OF h, of 100 False] h e r c f g show ?thesis
    by (intro conjI exI [of _ "commit (save (touch 100 ((sample_rows ! 1)\<lparr>completed := False\<rparr>)) sample_db)"]
        exI [of _ "touch 100 ((sample_rows ! 1)\<lparr>completed := False\<rparr>)"]) simp_all
qed

section \<open>Bulk operations\<close>

lemma delete_keeps_None:
  "get_task_by_id d uid x = None \<Longrightarrow> get_task_by_id (delete t d) uid x = None"
  by (auto simp: get_task_by_id_None delete_def)

lemma save_keeps_None:
  assumes "get_task_by_id d uid y = Some t" and "get_task_by_id d uid x = None"
    and "task_id t' = task_id t" and "user_id t' = user_id t"
  shows "get_task_by_id (save t' d) uid x = None"
proof -
  from assms(1) have t: "t \<in> set (rows d)" "task_id t = y" "user_id t = uid"
    by (simp_all add: get_task_by_id_Some)
  with assms(2) have "x \<noteq> task_id t"
    by (auto simp: get_task_by_id_None)
  with assms(2-4) t show ?thesis
    by (auto simp: get_task_by_id_None save_def)
qed

lemma bulk_loop_not_found:
  assumes keeps: "\<And>d y t x. get_task_by_id d uid y = Some t \<Longrightarrow>
      get_task_by_id d uid x = None \<Longrightarrow> get_task_by_id (step t d) uid x = None"
    and frame: "\<And>t d. committed (step t d) = committed d \<and> next_id (step t d) = next_id d"
    and bad: "\<exists>tid \<in> set task_ids. get_task_by_id d uid tid = None"
  shows "\<exists>d' tid. bulk_loop step d uid task_ids n = (d', Inl (TaskNotFound tid)) \<and>
     tid \<in> set task_ids \<and> committed d' = committed d \<and> next_id d' = next_id d"
  using bad
proof (induction task_ids arbitrary: d n)
  case Nil
  then show ?case by simp
next
  case (Cons tid task_ids)
  show ?case
  proof (cases "get_task_by_id d uid tid")
    case None
    then show ?thesis by simp
  next
    case (Some t)
    with Cons.prems obtain x where x: "x \<in> set task_ids" "get_task_by_id d uid x = None"
      by auto
    with Some have "get_task_by_id (step t d) uid x = None"
      by (auto intro: keeps)
    with x have "\<exists>tid \<in> set task_ids. get_task_by_id (step t d) uid tid = None"
      by blast
    from Cons.IH [OF this, of "n + 1"] frame [of t d] Some show ?thesis
      by auto
  qed
qed

lemma bulk_transaction_not_found:
  assumes keeps: "\<And>d y t x. get_task_by_id d uid y = Some t \<Longrightarrow>
      get_task_by_id d uid x = None \<Longrightarrow> get_task_by_id (step t d) uid x = None"
    and frame: "\<And>t d. committed (step t d) = committed d \<and> next_id (step t d) = next_id d"
    and bad: "\<exists>tid \<in> set task_ids. get_task_by_id d uid tid = None"
  shows "\<exists>tid. bulk_transaction step d uid task_ids = (rollback d, Inl (TaskNotFound tid)) \<and>
     tid \<in> set task_ids"
proof -
  have "\<exists>d' tid. bulk_loop step d uid task_ids 0 = (d', Inl (TaskNotFound tid)) \<and>
     tid \<in> set task_ids \<and> committed d' = committed d \<and> next_id d' = next_id d"
  proof (rule bulk_loop_not_found [where step = step and uid = uid])
    show "\<And>d y t x. get_task_by_id d uid y = Some t \<Longrightarrow>
      get_task_by_id d uid x = None \<Longrightarrow> get_task_by_id (step t d) uid x = None"
      by (rule keeps)
    show "\<And>t d. committed (step t d) = committed d \<and> next_id (step t d) = next_id d"
      by (rule frame)
    show "\<exists>tid \<in> set task_ids. get_task_by_id d uid tid = None"
      by (rule bad)
  qed
  then obtain d' tid where r: "bulk_loop step d uid task_ids 0 = (d', Inl (TaskNotFound tid))"
    "tid \<in> set task_ids" "committed d' = committed d" "next_id d' = next_id d"
    by blast
  then have "rollback d' = rollback d"
    by (simp add: rollback_def)
  with r show ?thesis by (auto simp: bulk_transaction_def)
qed

lemma bulk_delete_not_found:
  assumes "\<exists>tid \<in> set task_ids. get_task_by_id d uid tid = None"
  shows "\<exists>tid. bulk_delete d uid task_ids = (rollback d, Inl (TaskNotFound tid)) \<and>
     tid \<in> set task_ids"
  unfolding bulk_delete_def
proof (rule bulk_transaction_not_found [OF _ _ assms])
  show "get_task_by_id (delete t d') uid x = None"
    if "get_task_by_id d' uid x = None" for d' t x
    using that by (rule delete_keeps_None)
  show "committed (delete t d') = committed d' \<and> next_id (delete t d') = next_id d'" for t d'
    by (simp add: delete_def)
qed

lemma bulk_save_not_found:
  assumes "\<exists>tid \<in> set task_ids. get_task_by_id d uid tid = None"
    and "\<And>t. task_id (g t) = task_id t \<and> user_id (g t) = user_id t"
  shows "\<exists>tid. bulk_transaction (\<lambda>t. save (g t)) d uid task_ids =
       (rollback d, Inl (TaskNotFound tid)) \<and> tid \<in> set task_ids"
proof (rule bulk_transaction_not_found [OF _ _ assms(1)])
  show "get_task_by_id (save (g t) d') uid x = None"
    if "get_task_by_id d' uid y = Some t" "get_task_by_id d' uid x = None" for d' y t x
    using that assms(2) by (auto intro: save_keeps_None)
  show "committed (save (g t) d') = committed d' \<and> next_id (save (g t) d') = next_id d'" for t d'
    by (simp add: save_def)
qed


lemma bulk_fail_all:
  assumes "\<exists>tid \<in> set task_ids. get_task_by_id d uid tid = None"
  shows "(\<exists>tid \<in> set task_ids.
            bulk_delete d uid task_ids = (rollback d, Inl (TaskNotFound tid))) \<and>
         (\<exists>tid \<in> set task_ids.
            bulk_complete now d uid task_ids = (rollback d, Inl (TaskNotFound tid))) \<and>
         (\<exists>tid \<in> set task_ids.
            bulk_pending now d uid task_ids = (rollback d, Inl (TaskNotFound tid))) \<and>
         (valid_priority prio \<longrightarrow>
            (\<exists>tid \<in> set task_ids.
               bulk_priority_change now d uid task_ids prio =
                 (rollback d, Inl (TaskNotFound tid)))) \<and>
         (\<not> valid_priority prio \<longrightarrow>
            bulk_priority_change now d uid task_ids prio =
              (d, Inl (ValueError ''Priority must be one of: low, medium, high'')))"
proof -
  have del: "\<exists>tid \<in> set task_ids.
      bulk_delete d uid task_ids = (rollback d, Inl (TaskNotFound tid))"
    using bulk_delete_not_found [OF assms] by blast
  have sv: "\<exists>tid \<in> set task_ids. bulk_transaction (\<lambda>t. save (g t)) d uid task_ids =
       (rollback d, Inl (TaskNotFound tid))"
    if "\<And>t. task_id (g t) = task_id t \<and> user_id (g t) = user_id t" for g
    using bulk_save_not_found [OF assms, of g] that by blast
  have com: "\<exists>tid \<in> set task_ids.
      bulk_complete now d uid task_ids = (rollback d, Inl (TaskNotFound tid))"
    unfolding bulk_complete_def by (rule sv) (simp add: touch_def)
  have pen: "\<exists>tid \<in> set task_ids.
      bulk_pending now d uid task_ids = (rollback d, Inl (TaskNotFound tid))"
    unfolding bulk_pending_def by (rule sv) (simp add: touch_def)
  have "\<exists>tid \<in> set task_ids.
      bulk_transaction (\<lambda>t. save (touch now (t\<lparr>priority := prio\<rparr>))) d uid task_ids =
        (rollback d, Inl (TaskNotFound tid))"
    by (rule sv) (simp add: touch_def)
  then have pri: "valid_priority prio \<longrightarrow>
      (\<exists>tid \<in> set task_ids.
         bulk_priority_change now d uid task_ids prio = (rollback d, Inl (TaskNotFound tid)))"
    by (simp add: bulk_priority_change_def)
  have inv: "\<not> valid_priority prio \<longrightarrow>
      bulk_priority_change now d uid task_ids prio =
        (d, Inl (ValueError ''Priority must be one of: low, medium, high''))"
    by (simp add: bulk_priority_change_def)
  from del com pen pri inv show ?thesis by blast
qed

text \<open>
  C2, as the code has it. When the id list holds an id that does not resolve to a task
  of the owner, \<open>bulk_delete\<close>, \<open>bulk_complete\<close>, \<open>bulk_pending\<close>, and
  \<open>bulk_priority_change\<close> with a priority among low, medium, high, raise "task not
  found" for an id of the list and leave the session rolled back: the committed table is
  the one before the call and the session shows exactly it (for a session without
  pending changes the state is identical to the state before the call). A
  \<open>bulk_priority_change\<close> with any other priority raises the validation error before
  any lookup and leaves the state untouched.
\<close>

theorem bulk_atomicity:
  assumes "\<exists>tid \<in> set task_ids. get_task_by_id d uid tid = None"
  shows "(\<exists>tid \<in> set task_ids.
            bulk_delete d uid task_ids = (rollback d, Inl (TaskNotFound tid))) \<and>
         (\<exists>tid \<in> set task_ids.
            bulk_complete now d uid task_ids = (rollback d, Inl (TaskNotFound tid))) \<and>
         (\<exists>tid \<in> set task_ids.
            bulk_pending now d uid task_ids = (rollback d, Inl (TaskNotFound tid))) \<and>
         (valid_priority prio \<longrightarrow>
            (\<exists>tid \<in> set task_ids.
               bulk_priority_change now d uid task_ids prio =
                 (rollback d, Inl (TaskNotFound tid)))) \<and>
         (\<not> valid_priority prio \<longrightarrow>
            bulk_priority_change now d uid task_ids prio =
              (d, Inl (ValueError ''Priority must be one of: low, medium, high''))) \<and>
         committed (rollback d) = committed d \<and> rows (rollback d) = committed d \<and>
         next_id (rollback d) = next_id d \<and> (clean d \<longrightarrow> rollback d = d)"
proof -
  have rb: "committed (rollback d) = committed d \<and> rows (rollback d) = committed d \<and>
      next_id (rollback d) = next_id d \<and> (clean d \<longrightarrow> rollback d = d)"
    by (simp add: rollback_def clean_def)
  with bulk_fail_all [OF assms, of now prio] show ?thesis by blast
qed

theorem bulk_atomicity_witness:
  "get_task_by_id sample_db 1 999999 = None \<and>
   get_task_by_id sample_db 1 1 = Some (sample_rows ! 0) \<and>
   valid_priority ''low'' \<and> clean sample_db \<and>
   bulk_delete sample_db 1 [1, 999999] = (sample_db, Inl (TaskNotFound 999999)) \<and>
   bulk_complete 100 sample_db 1 [1, 999999] = (sample_db, Inl (TaskNotFound 999999)) \<and>
   bulk_pending 100 sample_db 1 [1, 999999] = (sample_db, Inl (TaskNotFound 999999)) \<and>
   bulk_priority_change 100 sample_db 1 [1, 999999] ''low'' =
     (sample_db, Inl (TaskNotFound 999999))"
proof -
  have n: "get_task_by_id sample_db 1 999999 = None"
    by (simp add: get_task_by_id_def sample_db_def sample_rows_def mk_task_def)
  have s: "get_task_by_id sample_db 1 1 = Some (sample_rows ! 0)"
    by (simp add: get_task_by_id_def sample_db_def sample_rows_def mk_task_def)
  have h: "\<exists>tid \<in> set [1, 999999]. get_task_by_id sample_db 1 tid = None"
    using n by simp
  have v: "valid_priority ''low''" by (simp add: valid_priority_def)
  have c: "clean sample_db" by (simp add: clean_def sample_db_def)
  have rb: "rollback (step t sample_db) = sample_db"
    if "\<And>t d. committed (step t d) = committed d \<and> next_id (step t d) = next_id d"
    for step and t :: task
    using that [of t sample_db] by (simp add: rollback_def sample_db_def)
  have tr: "bulk_transaction step sample_db 1 [1, 999999] = (sample_db, Inl (TaskNotFound 999999))"
    if "\<And>t d. committed (step t d) = committed d \<and> next_id (step t d) = next_id d"
      and "get_task_by_id (step (sample_rows ! 0) sample_db) 1 999999 = None"
    for step
    using that(2) rb [of step, OF that(1)] s by (simp add: bulk_transaction_def)
  have keep: "get_task_by_id (save (touch 100 (g (sample_rows ! 0))) sample_db) 1 999999 = None"
    if "task_id (g (sample_rows ! 0)) = task_id (sample_rows ! 0) \<and>
        user_id (g (sample_rows ! 0)) = user_id (sample_rows ! 0)" for g
    using that by (intro save_keeps_None [OF s n]) (simp_all add: touch_def)
  have d: "bulk_delete sample_db 1 [1, 999999] = (sample_db, Inl (TaskNotFound 999999))"
    unfolding bulk_delete_def
  proof (rule tr)
    show "get_task_by_id (delete (sample_rows ! 0) sample_db) 1 999999 = None"
      by (rule delete_keeps_None [OF n])
  qed (simp add: delete_def)
  have co: "bulk_complete 100 sample_db 1 [1, 999999] = (sample_db, Inl (TaskNotFound 999999))"
    unfolding bulk_complete_def
  proof (rule tr)
    show "get_task_by_id
        (save (touch 100 ((sample_rows ! 0)\<lparr>completed := True\<rparr>)) sample_db) 1 999999 = None"
      by (rule keep) simp
  qed (simp add: save_def)
  have pe: "bulk_pending 100 sample_db 1 [1, 999999] = (sample_db, Inl (TaskNotFound 999999))"
    unfolding bulk_pending_def
  proof (rule tr)
    show "get_task_by_id
        (save (touch 100 ((sample_rows ! 0)\<lparr>completed := False\<rparr>)) sample_db) 1 999999 = None"
      by (rule keep) simp
  qed (simp add: save_def)
  have "bulk_transaction (\<lambda>t. save (touch 100 (t\<lparr>priority := ''low''\<rparr>))) sample_db 1
      [1, 999999] = (sample_db, Inl (TaskNotFound 999999))"
  proof (rule tr)
    show "get_task_by_id
        (save (touch 100 ((sample_rows ! 0)\<lparr>priority := ''low''\<rparr>)) sample_db) 1 999999 = None"
      by (rule keep) simp
  qed (simp add: save_def)
  with v have pr: "bulk_priority_change 100 sample_db 1 [1, 999999] ''low'' =
     (sample_db, Inl (TaskNotFound 999999))"
    by (simp add: bulk_priority_change_def)
  from bulk_atomicity [OF h, of 100 "''low''"] n s v c d co pe pr show ?thesis
    by simp
qed


text \<open>
  C2 as stated fails for the priority change: with a priority outside low, medium, high
  and an id list holding an unknown id, the error raised is the validation error, not
  "task not found".
\<close>

theorem bulk_atomicity_counterexample:
  "get_task_by_id sample_db 1 999999 = None \<and>
   bulk_priority_change 100 sample_db 1 [1, 999999] ''urgent'' =
     (sample_db, Inl (ValueError ''Priority must be one of: low, medium, high'')) \<and>
   \<not> is_not_found (snd (bulk_priority_change 100 sample_db 1 [1, 999999] ''urgent''))"
  by (simp add: bulk_priority_change_def valid_priority_def is_not_found_def
      get_task_by_id_def sample_db_def sample_rows_def mk_task_def)

section \<open>The primary key is kept\<close>

text \<open>
  Uniqueness of ids is an invariant of the service: every operation leaves a table
  with unique ids when it starts from one, and \<open>create_task\<close> draws a fresh id.
\<close>

lemma ids_save: "map task_id (rows (save t d)) = map task_id (rows d)"
  by (simp add: save_def comp_def cong: map_cong)

lemma pk_unique_save: "pk_unique d \<Longrightarrow> pk_unique (save t d)"
  using ids_save [of t d] by (simp add: pk_unique_def) (simp add: save_def)

lemma pk_unique_delete: "pk_unique d \<Longrightarrow> pk_unique (delete t d)"
  by (simp add: pk_unique_def delete_def distinct_map_filter)

lemma pk_unique_commit: "pk_unique d \<Longrightarrow> pk_unique (commit d)"
  by (simp add: pk_unique_def commit_def)

lemma pk_unique_rollback: "pk_unique d \<Longrightarrow> pk_unique (rollback d)"
  by (simp add: pk_unique_def rollback_def)

lemma pk_unique_create_task:
  assumes "pk_unique d" and "ids_below d"
  shows "pk_unique (fst (create_task now d uid ttl descr prio due tgs)) \<and>
         ids_below (fst (create_task now d uid ttl descr prio due tgs))"
proof -
  from assms(2) have "next_id d \<notin> task_id ` set (rows d)"
    by (auto simp: ids_below_def list_all_iff)
  moreover from assms(2) have "list_all (\<lambda>r. task_id r < next_id d + 1) (rows d)"
    by (auto simp: ids_below_def list_all_iff)
  ultimately show ?thesis
    using assms by (simp add: create_task_def Let_def pk_unique_def ids_below_def commit_def)
qed

lemma pk_unique_toggle_complete:
  "pk_unique d \<Longrightarrow> pk_unique (fst (toggle_complete now d uid tid c))"
  by (simp add: toggle_complete_def Let_def pk_unique_save pk_unique_commit
      split: option.splits)

lemma pk_unique_delete_task:
  "pk_unique d \<Longrightarrow> pk_unique (fst (delete_task d uid tid))"
  by (simp add: delete_task_def pk_unique_delete pk_unique_commit split: option.splits)

lemma pk_unique_update_task:
  "pk_unique d \<Longrightarrow>
   pk_unique (fst (update_task now d uid tid ttl descr prio due tgs compl))"
  by (simp add: update_task_def Let_def pk_unique_save pk_unique_commit
      split: option.splits)

lemma pk_unique_bulk_loop:
  assumes "\<And>t d. pk_unique d \<Longrightarrow> pk_unique (step t d)"
  shows "pk_unique d \<Longrightarrow> pk_unique (fst (bulk_loop step d uid task_ids n))"
  by (induction task_ids arbitrary: d n) (auto simp: assms split: option.splits)

lemma pk_unique_bulk_transaction:
  assumes "\<And>t d. pk_unique d \<Longrightarrow> pk_unique (step t d)" and "pk_unique d"
  shows "pk_unique (fst (bulk_transaction step d uid task_ids))"
proof -
  have "pk_unique (fst (bulk_loop step d uid task_ids 0))"
    using assms by (intro pk_unique_bulk_loop)
  then show ?thesis
    by (auto simp: bulk_transaction_def pk_unique_commit pk_unique_rollback
        split: prod.splits sum.splits)
qed

lemma pk_unique_bulk:
  assumes "pk_unique d"
  shows "pk_unique (fst (bulk_delete d uid task_ids)) \<and>
         pk_unique (fst (bulk_complete now d uid task_ids)) \<and>
         pk_unique (fst (bulk_pending now d uid task_ids)) \<and>
         pk_unique (fst (bulk_priority_change now d uid task_ids prio))"
  using assms
  by (simp add: bulk_delete_def bulk_complete_def bulk_pending_def bulk_priority_change_def
      pk_unique_bulk_transaction pk_unique_delete pk_unique_save)

section \<open>Isolation between owners\<close>

lemma statement_without_owner:
  "B \<noteq> A \<Longrightarrow>
   statement f (d\<lparr>rows := filter (\<lambda>r. user_id r \<noteq> A) (rows d)\<rparr>) B st pr du tg se =
   statement f d B st pr du tg se"
  unfolding statement_def by (auto intro: filter_cong)

lemma get_tasks_owner_only:
  assumes "get_tasks f d B st pr du tg se sf sd page limit = Inr (ts, n)" and "r \<in> set ts"
  shows "user_id r = B"
proof -
  from assms(1) have "ts = take (nat limit) (drop (nat ((page - 1) * limit))
      (apply_sorting sf sd (statement f d B st pr du tg se)))"
    by (auto simp: get_tasks_def Let_def split: if_splits)
  with assms(2) have "r \<in> set (apply_sorting sf sd (statement f d B st pr du tg se))"
    by (auto dest: in_set_takeD in_set_dropD)
  then show ?thesis by (simp add: set_apply_sorting statement_def)
qed

text \<open>
  C3, as the code has it. Let the table have unique ids, \<open>t\<close> a task of owner \<open>A\<close>
  and \<open>B \<noteq> A\<close>. With owner \<open>B\<close> and the id of \<open>t\<close>: the read returns None, update
  returns None, delete returns False, toggle returns None, each leaving the session as
  it was; every bulk call whose id list holds that id fails and leaves the committed
  table as it was, with "task not found" for delete, complete, pending and for a
  priority change to low, medium or high, and with the validation error for a priority
  change to anything else; the statistics and the query results of \<open>B\<close> are those
  of the table without the tasks of \<open>A\<close>, and no page returned to \<open>B\<close> holds \<open>t\<close>.
\<close>

theorem owner_isolation:
  assumes "pk_unique d" and "t \<in> set (rows d)" and "user_id t = A" and "B \<noteq> A"
  shows "get_task_by_id d B (task_id t) = None \<and>
     update_task now d B (task_id t) ttl descr prio due tgs compl = (d, Inr None) \<and>
     delete_task d B (task_id t) = (d, False) \<and>
     toggle_complete now d B (task_id t) c = (d, None) \<and>
     (task_id t \<in> set task_ids \<longrightarrow>
        fst (bulk_delete d B task_ids) = rollback d \<and>
        is_not_found (snd (bulk_delete d B task_ids)) \<and>
        fst (bulk_complete now d B task_ids) = rollback d \<and>
        is_not_found (snd (bulk_complete now d B task_ids)) \<and>
        fst (bulk_pending now d B task_ids) = rollback d \<and>
        is_not_found (snd (bulk_pending now d B task_ids)) \<and>
        (valid_priority p \<longrightarrow>
           fst (bulk_priority_change now d B task_ids p) = rollback d \<and>
           is_not_found (snd (bulk_priority_change now d B task_ids p))) \<and>
        (\<not> valid_priority p \<longrightarrow>
           bulk_priority_change now d B task_ids p =
             (d, Inl (ValueError ''Priority must be one of: low, medium, high'')))) \<and>
     committed (rollback d) = committed d \<and> (clean d \<longrightarrow> rollback d = d) \<and>
     get_statistics now d B =
       get_statistics now (d\<lparr>rows := filter (\<lambda>r. user_id r \<noteq> A) (rows d)\<rparr>) B \<and>
     get_tasks f d B st pr du tg se sf sd page limit =
       get_tasks f (d\<lparr>rows := filter (\<lambda>r. user_id r \<noteq> A) (rows d)\<rparr>) B
         st pr du tg se sf sd page limit \<and>
     (\<forall>ts n. get_tasks f d B st pr du tg se sf sd page limit = Inr (ts, n) \<longrightarrow> t \<notin> set ts)"
proof -
  have none: "get_task_by_id d B (task_id t) = None"
    using assms by (rule other_owner_None)
  have upd: "update_task now d B (task_id t) ttl descr prio due tgs compl = (d, Inr None)"
    by (simp add: update_task_def none)
  have del: "delete_task d B (task_id t) = (d, False)"
    by (simp add: delete_task_def none)
  have tog: "toggle_complete now d B (task_id t) c = (d, None)"
    by (simp add: toggle_complete_def none)
  have bulk: "fst (bulk_delete d B task_ids) = rollback d \<and>
        is_not_found (snd (bulk_delete d B task_ids)) \<and>
        fst (bulk_complete now d B task_ids) = rollback d \<and>
        is_not_found (snd (bulk_complete now d B task_ids)) \<and>
        fst (bulk_pending now d B task_ids) = rollback d \<and>
        is_not_found (snd (bulk_pending now d B task_ids)) \<and>
        (valid_priority p \<longrightarrow>
           fst (bulk_priority_change now d B task_ids p) = rollback d \<and>
           is_not_found (snd (bulk_priority_change now d B task_ids p))) \<and>
        (\<not> valid_priority p \<longrightarrow>
           bulk_priority_change now d B task_ids p =
             (d, Inl (ValueError ''Priority must be one of: low, medium, high'')))"
    if "task_id t \<in> set task_ids"
  proof -
    from that none have "\<exists>tid \<in> set task_ids. get_task_by_id d B tid = None"
      by blast
    from bulk_fail_all [OF this, of now p] show ?thesis
      by (auto simp: is_not_found_def)
  qed
  have rb: "committed (rollback d) = committed d \<and> (clean d \<longrightarrow> rollback d = d)"
    by (simp add: rollback_def clean_def)
  have "filter (\<lambda>r. user_id r = B) (filter (\<lambda>r. user_id r \<noteq> A) (rows d)) =
        filter (\<lambda>r. user_id r = B) (rows d)"
    using assms(4) by (auto intro: filter_cong)
  then have stats: "get_statistics now d B =
       get_statistics now (d\<lparr>rows := filter (\<lambda>r. user_id r \<noteq> A) (rows d)\<rparr>) B"
    by (simp add: get_statistics_def)
  have qry: "get_tasks f d B st pr du tg se sf sd page limit =
       get_tasks f (d\<lparr>rows := filter (\<lambda>r. user_id r \<noteq> A) (rows d)\<rparr>) B
         st pr du tg se sf sd page limit"
    by (simp add: get_tasks_def statement_without_owner [OF assms(4)])
  have mem: "\<forall>ts n. get_tasks f d B st pr du tg se sf sd page limit = Inr (ts, n) \<longrightarrow> t \<notin> set ts"
    using assms(3,4) by (auto dest: get_tasks_owner_only)
  from none upd del tog bulk rb stats qry mem show ?thesis by blast
qed


theorem owner_isolation_witness:
  "pk_unique sample_db \<and> sample_rows ! 0 \<in> set (rows sample_db) \<and>
   user_id (sample_rows ! 0) = 1 \<and> task_id (sample_rows ! 0) = 1 \<and> (2::nat) \<noteq> 1 \<and>
   valid_priority ''low'' \<and> clean sample_db \<and>
   get_task_by_id sample_db 2 1 = None \<and>
   update_task 100 sample_db 2 1 (Some ''Mine now'') None None None None (Some True) =
     (sample_db, Inr None) \<and>
   delete_task sample_db 2 1 = (sample_db, False) \<and>
   toggle_complete 100 sample_db 2 1 True = (sample_db, None) \<and>
   bulk_delete sample_db 2 [5, 1] = (sample_db, Inl (TaskNotFound 1)) \<and>
   fst (bulk_priority_change 100 sample_db 2 [5, 1] ''low'') = sample_db \<and>
   is_not_found (snd (bulk_priority_change 100 sample_db 2 [5, 1] ''low'')) \<and>
   get_statistics 100 sample_db 2 =
     \<lparr>st_total = 1, st_completed = 0, st_pending = 1, st_overdue = 0\<rparr> \<and>
   map task_id (fst (projr
     (get_tasks no_date sample_db 2 None None None None None None None 1 20))) = [5]"
proof -
  have pk: "pk_unique sample_db"
    by (simp add: pk_unique_def sample_db_def sample_rows_def mk_task_def)
  have t: "sample_rows ! 0 \<in> set (rows sample_db)"
    by (simp add: sample_db_def sample_rows_def)
  have u: "user_id (sample_rows ! 0) = 1" and i: "task_id (sample_rows ! 0) = 1"
    by (simp_all add: sample_rows_def mk_task_def)
  have ne: "(2::nat) \<noteq> 1" by simp
  have v: "valid_priority ''low''" by (simp add: valid_priority_def)
  have c: "clean sample_db" by (simp add: clean_def sample_db_def)
  then have rb: "rollback sample_db = sample_db" by (simp add: rollback_def clean_def)
  have five: "get_task_by_id sample_db 2 5 = Some (sample_rows ! 4)"
    by (simp add: get_task_by_id_def sample_db_def sample_rows_def mk_task_def)
  note iso = owner_isolation [OF pk t u ne, unfolded i rb,
      of 100 "Some ''Mine now''" None None None None "Some True" True "[5, 1]" "''low''"
         no_date None None None None None None None 1 20]
  from iso have none: "get_task_by_id sample_db 2 1 = None" by blast
  have "get_task_by_id (delete (sample_rows ! 4) sample_db) 2 1 = None"
    by (rule delete_keeps_None [OF none])
  then have bd: "bulk_delete sample_db 2 [5, 1] = (sample_db, Inl (TaskNotFound 1))"
    using five by (simp add: bulk_delete_def bulk_transaction_def rollback_def delete_def
        sample_db_def)
  have st: "get_statistics 100 sample_db 2 =
     \<lparr>st_total = 1, st_completed = 0, st_pending = 1, st_overdue = 0\<rparr>"
    by (simp add: get_statistics_def sample_db_def sample_rows_def mk_task_def)
  have q: "map task_id (fst (projr
     (get_tasks no_date sample_db 2 None None None None None None None 1 20))) = [5]"
    by (simp add: get_tasks_def statement_def sample_db_def sample_rows_def mk_task_def
        apply_sorting_def order_by_def status_where_def priority_where_def due_date_where_def
        tags_where_def search_where_def)
  from iso pk t u i ne v c bd st q show ?thesis by simp
qed

text \<open>
  C3 as stated fails in one place: a bulk priority change by owner 2 on the id of a task
  of owner 1, with a priority outside low, medium, high, fails with the validation
  error, not with "task not found".
\<close>

theorem owner_isolation_counterexample:
  "sample_rows ! 0 \<in> set (rows sample_db) \<and> user_id (sample_rows ! 0) = 1 \<and>
   task_id (sample_rows ! 0) = 1 \<and>
   bulk_priority_change 100 sample_db 2 [1] ''urgent'' =
     (sample_db, Inl (ValueError ''Priority must be one of: low, medium, high'')) \<and>
   \<not> is_not_found (snd (bulk_priority_change 100 sample_db 2 [1] ''urgent''))"
  by (simp add: bulk_priority_change_def valid_priority_def is_not_found_def
      sample_db_def sample_rows_def mk_task_def)

section \<open>Tags bounds\<close>

lemma tags_length_loop_None:
  "tags_length_loop ts = None \<longleftrightarrow> (\<forall>tag \<in> set ts. length tag \<le> 50)"
  by (induction ts) auto

lemma tags_length_loop_Some:
  "tags_length_loop ts = Some e \<Longrightarrow> e = ValueError ''Each tag must be 50 characters or less''"
  by (induction ts) (auto split: if_splits)

lemma create_task_tags_free:
  "isl (snd (create_task now d uid ttl descr prio due tgs)) =
   isl (snd (create_task now d uid ttl descr prio due None))"
  by (simp add: create_task_def Let_def)

lemma create_task_tags_stored:
  "create_task now d uid ttl descr prio due (Some ts) = (d', Inr t) \<Longrightarrow> tags t = ts"
  by (auto simp: create_task_def Let_def split: if_splits)

lemma update_task_tags_free:
  "isl (snd (update_task now d uid tid ttl descr prio due tgs compl)) =
   isl (snd (update_task now d uid tid ttl descr prio due None compl))"
  by (simp add: update_task_def Let_def split: option.splits)

lemma update_task_tags_stored:
  "update_task now d uid tid ttl descr prio due (Some ts) compl = (d', Inr (Some t)) \<Longrightarrow>
   tags t = ts"
  by (auto simp: update_task_def Let_def touch_def split: option.splits if_splits)

lemma validate_tags_rejects:
  assumes "10 < length ts \<or> (\<exists>tag \<in> set ts. 50 < length tag)"
  shows "(\<exists>msg. create_validate_tags (Some ts) = Inl (ValueError msg)) \<and>
         (\<exists>msg. update_validate_tags (Some ts) = Inl (ValueError msg))"
proof (cases "10 < length ts")
  case True
  then show ?thesis by (simp add: create_validate_tags_def update_validate_tags_def)
next
  case False
  with assms have "\<not> (\<forall>tag \<in> set ts. length tag \<le> 50)" by (auto simp: not_le)
  then have "tags_length_loop ts \<noteq> None" by (simp add: tags_length_loop_None)
  then obtain e where e: "tags_length_loop ts = Some e" by auto
  from tags_length_loop_Some [OF this] e False show ?thesis
    by (simp add: create_validate_tags_def update_validate_tags_def)
qed

lemma validate_tags_accepts:
  assumes "\<not> (10 < length ts \<or> (\<exists>tag \<in> set ts. 50 < length tag))"
  shows "create_validate_tags (Some ts) = Inr (Some ts) \<and>
         update_validate_tags (Some ts) = Inr (Some ts)"
proof -
  from assms have "tags_length_loop ts = None"
    by (auto simp: tags_length_loop_None not_less)
  with assms show ?thesis
    by (simp add: create_validate_tags_def update_validate_tags_def)
qed

lemma create_validate_tags_Inr:
  assumes "create_validate_tags v = Inr w"
  shows "\<exists>ts. v = Some ts \<and> w = Some ts \<and> length ts \<le> 10 \<and> (\<forall>tag \<in> set ts. length tag \<le> 50)"
  using assms
  by (auto simp: create_validate_tags_def tags_length_loop_None [symmetric]
      split: option.splits if_splits)

lemma update_validate_tags_Inr:
  assumes "update_validate_tags (Some ts) = Inr w"
  shows "w = Some ts \<and> length ts \<le> 10 \<and> (\<forall>tag \<in> set ts. length tag \<le> 50)"
  using assms
  by (auto simp: update_validate_tags_def tags_length_loop_None [symmetric]
      split: option.splits if_splits)

lemma create_task_tags:
  "create_task now d uid ttl descr prio due tgs = (d', Inr t) \<Longrightarrow>
   tags t = (case tgs of None \<Rightarrow> [] | Some ts \<Rightarrow> ts)"
  by (auto simp: create_task_def Let_def split: if_splits)

lemma create_route_rejects:
  assumes "10 < length ts \<or> (\<exists>tag \<in> set ts. 50 < length tag)"
    and "c_tags body = Some (Some ts)"
  shows "create_task_route now d cu uid body = (d, Inl RequestValidationError)"
proof -
  from validate_tags_rejects [OF assms(1)] obtain msg where
    "create_validate_tags (Some ts) = Inl (ValueError msg)" by blast
  with assms(2) have "validate_create_request now body = Inl RequestValidationError"
    by (simp add: validate_create_request_def)
  then show ?thesis by (simp add: create_task_route_def)
qed

lemma update_route_rejects:
  assumes "10 < length ts \<or> (\<exists>tag \<in> set ts. 50 < length tag)"
    and "u_tags body = Some ts"
  shows "update_task_route now d cu uid tid body = (d, Inl RequestValidationError)"
proof -
  from validate_tags_rejects [OF assms(1)] obtain msg where
    "update_validate_tags (Some ts) = Inl (ValueError msg)" by blast
  with assms(2) have "validate_update_request now body = Inl RequestValidationError"
    by (simp add: validate_update_request_def)
  then show ?thesis by (simp add: update_task_route_def)
qed

lemma create_route_bounds:
  assumes "create_task_route now d cu uid body = (d', Inr t)"
  shows "length (tags t) \<le> 10 \<and> (\<forall>tag \<in> set (tags t). length tag \<le> 50)"
proof -
  from assms obtain request where
    v: "validate_create_request now body = Inr request"
    and c: "create_task now d uid (r_title request) (r_description request)
              (r_priority request) (r_due_date request) (r_tags request) = (d', Inr t)"
    by (auto simp: create_task_route_def split: sum.splits if_splits prod.splits error.splits)
  from v have "r_tags request = Some [] \<or>
      (\<exists>u. create_validate_tags u = Inr (r_tags request))"
    by (auto simp: validate_create_request_def split: option.splits sum.splits error.splits
        if_splits)
  then have "\<exists>ts. r_tags request = Some ts \<and> length ts \<le> 10 \<and>
      (\<forall>tag \<in> set ts. length tag \<le> 50)"
    by (auto dest: create_validate_tags_Inr)
  with create_task_tags [OF c] show ?thesis by auto
qed

lemma update_route_bounds:
  assumes "update_task_route now d cu uid tid body = (d', Inr t)" and "u_tags body = Some ts"
  shows "tags t = ts \<and> length ts \<le> 10 \<and> (\<forall>tag \<in> set ts. length tag \<le> 50)"
proof -
  from assms(1) obtain request where
    v: "validate_update_request now body = Inr request"
    and c: "update_task now d uid tid (u_title request) (u_description request)
              (u_priority request) (u_due_date request) (u_tags request) None = (d', Inr (Some t))"
    by (auto simp: update_task_route_def
        split: sum.splits if_splits prod.splits error.splits option.splits)
  from v assms(2) have "update_validate_tags (Some ts) = Inr (u_tags request)"
    by (auto simp: validate_update_request_def split: sum.splits if_splits)
  from update_validate_tags_Inr [OF this]
  have w: "u_tags request = Some ts" and b: "length ts \<le> 10 \<and> (\<forall>tag \<in> set ts. length tag \<le> 50)"
    by simp_all
  from c w have "tags t = ts" by (auto dest: update_task_tags_stored)
  with b show ?thesis by simp
qed


text \<open>
  C5, as the code has it. The bounds on tags are checked by the request schemas: the
  \<open>validate_tags\<close> validators of the create and of the update request fail with a
  ValueError whenever the list has more than 10 entries or a tag longer than 50
  characters, and return the list otherwise. A create or update request that supplies
  such a list is answered with the validation error by the route, the session
  untouched and the service never called; every task the create route returns, and
  every task the update route returns for a request with tags, has at most 10 tags of
  at most 50 characters. \<open>create_task\<close> and \<open>update_task\<close> themselves check nothing
  about tags: whether they fail does not depend on the tags given, and on success the
  task carries the tags as given.
\<close>

theorem tags_bound_at_boundary:
  "((10 < length ts \<or> (\<exists>tag \<in> set ts. 50 < length tag)) \<longrightarrow>
      (\<exists>msg. create_validate_tags (Some ts) = Inl (ValueError msg)) \<and>
      (\<exists>msg. update_validate_tags (Some ts) = Inl (ValueError msg)) \<and>
      (c_tags cbody = Some (Some ts) \<longrightarrow>
         create_task_route now d cu uid cbody = (d, Inl RequestValidationError)) \<and>
      (u_tags ubody = Some ts \<longrightarrow>
         update_task_route now d cu uid tid ubody = (d, Inl RequestValidationError))) \<and>
   (\<not> (10 < length ts \<or> (\<exists>tag \<in> set ts. 50 < length tag)) \<longrightarrow>
      create_validate_tags (Some ts) = Inr (Some ts) \<and>
      update_validate_tags (Some ts) = Inr (Some ts)) \<and>
   (\<forall>d' t. create_task_route now d cu uid cbody = (d', Inr t) \<longrightarrow>
      length (tags t) \<le> 10 \<and> (\<forall>tag \<in> set (tags t). length tag \<le> 50)) \<and>
   (\<forall>d' t. update_task_route now d cu uid tid ubody = (d', Inr t) \<and> u_tags ubody = Some ts \<longrightarrow>
      tags t = ts \<and> length ts \<le> 10 \<and> (\<forall>tag \<in> set ts. length tag \<le> 50)) \<and>
   isl (snd (create_task now d uid ttl descr prio due tgs)) =
     isl (snd (create_task now d uid ttl descr prio due None)) \<and>
   (\<forall>d' t. create_task now d uid ttl descr prio due (Some ts) = (d', Inr t) \<longrightarrow> tags t = ts) \<and>
   isl (snd (update_task now d uid tid ttl' descr' prio' due tgs compl)) =
     isl (snd (update_task now d uid tid ttl' descr' prio' due None compl)) \<and>
   (\<forall>d' t. update_task now d uid tid ttl' descr' prio' due (Some ts) compl = (d', Inr (Some t))
      \<longrightarrow> tags t = ts)"
proof -
  have bad: "(10 < length ts \<or> (\<exists>tag \<in> set ts. 50 < length tag)) \<longrightarrow>
      (\<exists>msg. create_validate_tags (Some ts) = Inl (ValueError msg)) \<and>
      (\<exists>msg. update_validate_tags (Some ts) = Inl (ValueError msg)) \<and>
      (c_tags cbody = Some (Some ts) \<longrightarrow>
         create_task_route now d cu uid cbody = (d, Inl RequestValidationError)) \<and>
      (u_tags ubody = Some ts \<longrightarrow>
         update_task_route now d cu uid tid ubody = (d, Inl RequestValidationError))"
    using validate_tags_rejects [of ts] create_route_rejects [of ts cbody now d cu uid]
      update_route_rejects [of ts ubody now d cu uid tid]
    by blast
  have good: "\<not> (10 < length ts \<or> (\<exists>tag \<in> set ts. 50 < length tag)) \<longrightarrow>
      create_validate_tags (Some ts) = Inr (Some ts) \<and>
      update_validate_tags (Some ts) = Inr (Some ts)"
    using validate_tags_accepts [of ts] by blast
  have rc: "\<forall>d' t. create_task_route now d cu uid cbody = (d', Inr t) \<longrightarrow>
      length (tags t) \<le> 10 \<and> (\<forall>tag \<in> set (tags t). length tag \<le> 50)"
    using create_route_bounds [of now d cu uid cbody] by blast
  have ru: "\<forall>d' t. update_task_route now d cu uid tid ubody = (d', Inr t) \<and>
      u_tags ubody = Some ts \<longrightarrow>
      tags t = ts \<and> length ts \<le> 10 \<and> (\<forall>tag \<in> set ts. length tag \<le> 50)"
    using update_route_bounds [of now d cu uid tid ubody _ _ ts] by blast
  have c1: "isl (snd (create_task now d uid ttl descr prio due tgs)) =
     isl (snd (create_task now d uid ttl descr prio due None))"
    by (rule create_task_tags_free)
  have c2: "\<forall>d' t. create_task now d uid ttl descr prio due (Some ts) = (d', Inr t) \<longrightarrow>
      tags t = ts"
    by (auto dest: create_task_tags_stored)
  have u1: "isl (snd (update_task now d uid tid ttl' descr' prio' due tgs compl)) =
     isl (snd (update_task now d uid tid ttl' descr' prio' due None compl))"
    by (rule update_task_tags_free)
  have u2: "\<forall>d' t. update_task now d uid tid ttl' descr' prio' due (Some ts) compl =
      (d', Inr (Some t)) \<longrightarrow> tags t = ts"
    by (auto dest: update_task_tags_stored)
  show ?thesis
    by (rule conjI [OF bad conjI [OF good conjI [OF rc conjI [OF ru
          conjI [OF c1 conjI [OF c2 conjI [OF u1 u2]]]]]]])
qed

theorem tags_bound_at_boundary_witness:
  "10 < length (replicate 11 ''x'') \<and>
   create_validate_tags (Some (replicate 11 ''x'')) = Inl (ValueError ''Maximum 10 tags allowed'') \<and>
   update_validate_tags (Some (replicate 11 ''x'')) = Inl (ValueError ''Maximum 10 tags allowed'') \<and>
   create_task_route 100 sample_db 1 1
     \<lparr>c_title = ''Tagged'', c_description = None, c_priority = None, c_due_date = None,
      c_tags = Some (Some (replicate 11 ''x''))\<rparr> = (sample_db, Inl RequestValidationError) \<and>
   update_task_route 100 sample_db 1 1 1
     \<lparr>u_title = None, u_description = None, u_priority = None, u_due_date = None,
      u_tags = Some (replicate 11 ''x'')\<rparr> = (sample_db, Inl RequestValidationError) \<and>
   \<not> (10 < length [''work'', ''urgent''] \<or> 50 < length ''work'' \<or> 50 < length ''urgent'') \<and>
   create_validate_tags (Some [''work'', ''urgent'']) = Inr (Some [''work'', ''urgent'']) \<and>
   update_validate_tags (Some [''work'', ''urgent'']) = Inr (Some [''work'', ''urgent'']) \<and>
   (\<exists>d' t. create_task_route 100 sample_db 1 1
       \<lparr>c_title = ''Tagged'', c_description = None, c_priority = None, c_due_date = None,
        c_tags = Some (Some [''work'', ''urgent''])\<rparr> = (d', Inr t) \<and>
      tags t = [''work'', ''urgent'']) \<and>
   (\<exists>d' t. update_task_route 100 sample_db 1 1 3
       \<lparr>u_title = None, u_description = None, u_priority = None, u_due_date = None,
        u_tags = Some [''work'', ''urgent'']\<rparr> = (d', Inr t) \<and>
      tags t = [''work'', ''urgent''])"
proof -
  let ?cbad = "\<lparr>c_title = ''Tagged'', c_description = None, c_priority = None,
      c_due_date = None, c_tags = Some (Some (replicate 11 ''x''))\<rparr>"
  let ?ubad = "\<lparr>u_title = None, u_description = None, u_priority = None, u_due_date = None,
      u_tags = Some (replicate 11 ''x'')\<rparr>"
  let ?cgood = "\<lparr>c_title = ''Tagged'', c_description = None, c_priority = None,
      c_due_date = None, c_tags = Some (Some [''work'', ''urgent''])\<rparr>"
  let ?ugood = "\<lparr>u_title = None, u_description = None, u_priority = None, u_due_date = None,
      u_tags = Some [''work'', ''urgent'']\<rparr>"
  have a: "10 < length (replicate 11 ''x'')" by simp
  have b: "\<not> (10 < length [''work'', ''urgent''] \<or>
      (\<exists>tag \<in> set [''work'', ''urgent'']. 50 < length tag))"
    by simp
  have c: "create_validate_tags (Some (replicate 11 ''x'')) =
        Inl (ValueError ''Maximum 10 tags allowed'') \<and>
      update_validate_tags (Some (replicate 11 ''x'')) =
        Inl (ValueError ''Maximum 10 tags allowed'')"
    by (simp add: create_validate_tags_def update_validate_tags_def)
  note bad = tags_bound_at_boundary [of "replicate 11 ''x''" ?cbad 100 sample_db 1 1 ?ubad 1
      "''Tagged''" None "''medium''" None None None None None None]
  note good = tags_bound_at_boundary [of "[''work'', ''urgent'']" ?cgood 100 sample_db 1 1 ?ugood 3
      "''Tagged''" None "''medium''" None None None None None None]
  from bad a have r1: "create_task_route 100 sample_db 1 1 ?cbad =
      (sample_db, Inl RequestValidationError)"
    by simp
  from bad a have r2: "update_task_route 100 sample_db 1 1 1 ?ubad =
      (sample_db, Inl RequestValidationError)"
    by simp
  from good b have v: "create_validate_tags (Some [''work'', ''urgent'']) =
        Inr (Some [''work'', ''urgent'']) \<and>
      update_validate_tags (Some [''work'', ''urgent'']) = Inr (Some [''work'', ''urgent''])"
    by simp
  have s: "strip ''Tagged'' = ''Tagged''"
    by (simp add: strip_def is_space_def)
  have g: "get_task_by_id sample_db 1 3 = Some (sample_rows ! 2)"
    by (simp add: get_task_by_id_def sample_db_def sample_rows_def mk_task_def)
  have e1: "\<exists>d' t. create_task_route 100 sample_db 1 1 ?cgood = (d', Inr t) \<and>
      tags t = [''work'', ''urgent'']"
    using v s by (simp add: create_task_route_def validate_create_request_def create_task_def
        valid_priority_def Let_def)
  have e2: "\<exists>d' t. update_task_route 100 sample_db 1 1 3 ?ugood = (d', Inr t) \<and>
      tags t = [''work'', ''urgent'']"
    using v g by (simp add: update_task_route_def validate_update_request_def update_task_def
        Let_def touch_def)
  from a b c r1 r2 v e1 e2 show ?thesis by simp
qed

text \<open>
  C5 as stated fails: \<open>create_task\<close> with eleven tags succeeds and stores them, and
  \<open>update_task\<close> with a tag of 51 characters succeeds and stores it.
\<close>

theorem tags_unchecked_in_service_counterexample:
  "10 < length (replicate 11 ''x'') \<and>
   tags (projr (snd (create_task 100 sample_db 1 ''Tagged'' None ''medium'' None
      (Some (replicate 11 ''x''))))) = replicate 11 ''x'' \<and>
   \<not> isl (snd (create_task 100 sample_db 1 ''Tagged'' None ''medium'' None
      (Some (replicate 11 ''x'')))) \<and>
   \<not> isl (snd (update_task 100 sample_db 1 1 None None None None
      (Some [replicate 51 CHR ''x'']) None)) \<and>
   map_option tags (projr (snd (update_task 100 sample_db 1 1 None None None None
      (Some [replicate 51 CHR ''x'']) None))) = Some [replicate 51 CHR ''x'']"
proof -
  have s: "strip ''Tagged'' = ''Tagged''"
    by (simp add: strip_def is_space_def)
  have g: "get_task_by_id sample_db 1 1 = Some (sample_rows ! 0)"
    by (simp add: get_task_by_id_def sample_db_def sample_rows_def mk_task_def)
  show ?thesis
    using s g by (simp add: create_task_def update_task_def valid_priority_def Let_def touch_def)
qed

section \<open>Imported completed values\<close>

text \<open>
  C8. A record whose completed value is the string "yes", "no" or "TRUE" is turned away
  by \<open>validate_imported_task\<close> for that field, in a CSV row and in a JSON item alike,
  although \<open>parse_boolean\<close> reads these forms; only true, false, True, False, 1, 0
  and native booleans pass. A JSON item's string "true" passes and is kept as a string.
\<close>

theorem import_completed_yes_rejected:
  "validate_imported_task no_date [(''title'', PStr ''Task''), (''completed'', PStr ''yes'')] =
     Inr (Invalid (Invalid_completed (PStr ''yes''))) \<and>
   csv_row_completed no_date [(''title'', PStr ''Task''), (''completed'', PStr ''yes'')] = Inr None \<and>
   json_item_completed no_date [(''title'', PStr ''Task''), (''completed'', PStr ''yes'')] = Inr None \<and>
   validate_imported_task no_date [(''title'', PStr ''Task''), (''completed'', PStr ''TRUE'')] =
     Inr (Invalid (Invalid_completed (PStr ''TRUE''))) \<and>
   validate_completed (PStr ''no'') = Invalid (Invalid_completed (PStr ''no'')) \<and>
   parse_boolean (PStr ''yes'') = True \<and> parse_boolean (PStr ''TRUE'') = True \<and>
   parse_boolean (PStr ''no'') = False \<and>
   validate_imported_task no_date [(''title'', PStr ''Task''), (''completed'', PStr ''true'')] =
     Inr Valid \<and>
   json_item_completed no_date [(''title'', PStr ''Task''), (''completed'', PStr ''true'')] =
     Inr (Some (PStr ''true''))"
proof -
  have s: "strip ''Task'' = ''Task''"
    by (simp add: strip_def is_space_def)
  have l: "lower ''medium'' = ''medium'' \<and> lower ''yes'' = ''yes'' \<and> lower ''TRUE'' = ''true'' \<and>
      lower ''no'' = ''no''"
    by (simp add: lower_def lower_char_def latin_upper_def latin_lower_def)
  have v: "validate_imported_task no_date [(''title'', PStr ''Task''), (''completed'', c)] =
      Inr (validate_completed c)" for c
    using s l by (simp add: validate_imported_task_def dict_get_def valid_priority_def
        validate_tags_field_def Let_def)
  show ?thesis
    using l by (simp add: v csv_row_completed_def json_item_completed_def validate_completed_def
        parse_boolean_def dict_get_def)
qed

end
